theory Spec2Isabelle
  imports Complex_Main
begin

section \<open>Vectors and the periodic cell\<close>

text \<open>
  The builder works on numpy arrays of shape (3,) and (3, 3). They are modelled as
  triples of reals and triples of rows. Floating-point rounding is not modelled: the
  arithmetic below is the exact arithmetic that the numpy expressions approximate.
\<close>

type_synonym vec3 = "real \<times> real \<times> real"
type_synonym mat3 = "vec3 \<times> vec3 \<times> vec3"

fun vadd :: "vec3 \<Rightarrow> vec3 \<Rightarrow> vec3" where
  "vadd (a1, a2, a3) (b1, b2, b3) = (a1 + b1, a2 + b2, a3 + b3)"

fun vsub :: "vec3 \<Rightarrow> vec3 \<Rightarrow> vec3" where
  "vsub (a1, a2, a3) (b1, b2, b3) = (a1 - b1, a2 - b2, a3 - b3)"

fun vscale :: "real \<Rightarrow> vec3 \<Rightarrow> vec3" where
  "vscale k (a1, a2, a3) = (k * a1, k * a2, k * a3)"

text \<open>\<^verbatim>\<open>np.linalg.norm(s)\<close> of a vector: the Euclidean norm.\<close>

fun norm3 :: "vec3 \<Rightarrow> real" where
  "norm3 (a1, a2, a3) = sqrt (a1 * a1 + a2 * a2 + a3 * a3)"

text \<open>\<^verbatim>\<open>v @ m\<close>: a row vector times a matrix given by its rows.\<close>

fun vecmat :: "vec3 \<Rightarrow> mat3 \<Rightarrow> vec3" where
  "vecmat (v1, v2, v3) ((a11, a12, a13), (a21, a22, a23), (a31, a32, a33)) =
     (v1 * a11 + v2 * a21 + v3 * a31,
      v1 * a12 + v2 * a22 + v3 * a32,
      v1 * a13 + v2 * a23 + v3 * a33)"

fun det3 :: "mat3 \<Rightarrow> real" where
  "det3 ((a11, a12, a13), (a21, a22, a23), (a31, a32, a33)) =
     a11 * (a22 * a33 - a23 * a32) - a12 * (a21 * a33 - a23 * a31)
       + a13 * (a21 * a32 - a22 * a31)"

text \<open>
  \<^verbatim>\<open>np.linalg.inv\<close>: the inverse by cofactors; a singular matrix has none (numpy
  raises \<^verbatim>\<open>LinAlgError\<close>).
\<close>

fun inv3 :: "mat3 \<Rightarrow> mat3 option" where
  "inv3 ((a11, a12, a13), (a21, a22, a23), (a31, a32, a33)) =
     (let dt = det3 ((a11, a12, a13), (a21, a22, a23), (a31, a32, a33)) in
      if dt = 0 then None
      else Some (((a22 * a33 - a23 * a32) / dt, (a13 * a32 - a12 * a33) / dt,
                  (a12 * a23 - a13 * a22) / dt),
                 ((a23 * a31 - a21 * a33) / dt, (a11 * a33 - a13 * a31) / dt,
                  (a13 * a21 - a11 * a23) / dt),
                 ((a21 * a32 - a22 * a31) / dt, (a12 * a31 - a11 * a32) / dt,
                  (a11 * a22 - a12 * a21) / dt)))"

subsection \<open>Minimum image (builder.py, lines 145 to 149)\<close>

text \<open>
  \<^verbatim>\<open>s = np.where(s>0.5, s-1.0, s); s = np.where(s<-0.5, s+1.0, s)\<close>, on one component:
  the two selections are applied one after the other, each shifting by one cell at most.
\<close>

definition wrap_component :: "real \<Rightarrow> real" where
  "wrap_component s =
     (let s1 = (if s > 0.5 then s - 1.0 else s) in
      if s1 < - 0.5 then s1 + 1.0 else s1)"

fun wrap_fractional :: "vec3 \<Rightarrow> vec3" where
  "wrap_fractional (s1, s2, s3) = (wrap_component s1, wrap_component s2, wrap_component s3)"

text \<open>The fractional coordinates of a displacement, before and after the wrapping step.\<close>

definition raw_fractional :: "vec3 \<Rightarrow> mat3 \<Rightarrow> vec3" where
  "raw_fractional d invc = vecmat d invc"

definition wrapped_fractional :: "vec3 \<Rightarrow> mat3 \<Rightarrow> vec3" where
  "wrapped_fractional d invc = wrap_fractional (raw_fractional d invc)"

text \<open>Lines 146 to 149 as a whole: the displacement after the minimum-image step.\<close>

definition minimum_image :: "vec3 \<Rightarrow> mat3 \<Rightarrow> mat3 \<Rightarrow> vec3" where
  "minimum_image d invc c = vecmat (wrapped_fractional d invc) c"

fun components :: "vec3 \<Rightarrow> real list" where
  "components (a1, a2, a3) = [a1, a2, a3]"

section \<open>Data model\<close>

text \<open>
  Python exceptions that the builder can raise, as values. \<open>AssertionError\<close> is the
  \<^verbatim>\<open>assert\<close> of line 31; \<open>UnboundLocalError\<close> is the read of a local variable that no
  loop iteration assigned (lines 117 and 159); \<open>AttributeError\<close> is an attribute read on
  \<^verbatim>\<open>None\<close>; \<open>IndexError\<close> an index out of range; \<open>ValueError\<close> a tuple unpacking of
  the wrong length or an \<^verbatim>\<open>np.concatenate\<close> of nothing or of arrays of different rank;
  \<open>LinAlgError\<close> the inversion of a singular cell. \<open>ArrayValuedIndex\<close> marks the one
  path the model does not follow: numpy reads \<^verbatim>\<open>a[None]\<close> as a new axis, so that
  \<^verbatim>\<open>connection_point_indices[None][0]\<close> is an array instead of an atom index.
  \<open>ShapeMismatch\<close> and \<open>NoMatchFound\<close> are raised by the collaborators only.
\<close>

datatype error =
    AssertionError
  | UnboundLocalError
  | AttributeError
  | IndexError
  | ValueError
  | LinAlgError
  | ArrayValuedIndex
  | ShapeMismatch
  | NoMatchFound

record neighbor =
  index :: nat
  distance_vector :: vec3

text \<open>\<^verbatim>\<open>LocalStructure(positions, indices)\<close>, as the builder constructs it at line 153.\<close>

record LocalStructure =
  ls_positions :: "vec3 list"
  ls_indices :: "nat list"

text \<open>
  The topology object, with the attributes and methods the builder reads.
  \<open>positions\<close> and \<open>cell\<close> are \<^verbatim>\<open>topology.atoms[i].position\<close> and
  \<^verbatim>\<open>topology.atoms.cell\<close>.
\<close>

record topology =
  n_node_types :: nat
  n_all_points :: nat
  node_indices :: "nat list"
  edge_indices :: "nat list"
  get_node_type :: "nat \<Rightarrow> nat"
  get_edge_type :: "nat \<Rightarrow> nat \<times> nat"
  local_structure :: "nat \<Rightarrow> LocalStructure"
  neighbor_list :: "neighbor list list"
  positions :: "vec3 list"
  cell :: mat3

record atom =
  symbol :: string
  position :: vec3

text \<open>
  A building block, as the builder reads it: its atoms, its intrinsic bonds (pairs of
  local atom indices), its ordered connection-point atom indices, and its centre. The
  class itself is not among the sources.
\<close>

record building_block =
  atoms :: "atom list"
  bonds :: "(nat \<times> nat) list"
  connection_point_indices :: "nat list"
  center :: vec3

text \<open>
  Modelled from the spec: the property \<^verbatim>\<open>n_atoms\<close> of the building-block class is
  missing; the spec (sections 3 and 6) has it as the atom count of the block.
\<close>

definition n_atoms :: "building_block \<Rightarrow> nat" where
  "n_atoms bb = length (atoms bb)"

text \<open>
  Modelled from the spec: the method \<^verbatim>\<open>set_center\<close> of the building-block class is
  missing; the spec (sections 4.1 and 4.3, step 3) has it translate the block rigidly so
  that its centre lies at the given position. The locator returns a new block (spec,
  section 4.1), so that moving it leaves the template as it was.
\<close>

definition set_center :: "building_block \<Rightarrow> vec3 \<Rightarrow> building_block" where
  "set_center bb new_center =
     bb\<lparr>atoms := map (\<lambda>a. a\<lparr>position := vadd (position a) (vsub new_center (center bb))\<rparr>)
                    (atoms bb),
        center := new_center\<rparr>"

text \<open>
  The collaborators whose code is not among the sources, as parameters of the build:
  \<^verbatim>\<open>Scaler.scale\<close>, \<^verbatim>\<open>Locator.locate\<close> (which returns a new block and the RMSD),
  \<^verbatim>\<open>LocalStructure.matching_permutation\<close> and the \<^verbatim>\<open>local_structure()\<close> method of a
  block. The first three may raise.
\<close>

type_synonym edge_bbs = "((nat \<times> nat) \<times> building_block option) list"

record externals =
  scale :: "topology \<Rightarrow> building_block list \<Rightarrow> edge_bbs \<Rightarrow> error + topology"
  locate :: "LocalStructure \<Rightarrow> building_block \<Rightarrow> error + (building_block \<times> real)"
  matching_permutation :: "LocalStructure \<Rightarrow> LocalStructure \<Rightarrow> error + nat list"
  bb_local_structure :: "building_block \<Rightarrow> LocalStructure"

text \<open>The assembled structure: the arguments of \<^verbatim>\<open>MOF(mof_atoms, all_bonds, wrap=True)\<close>.\<close>

record MOF =
  mof_atoms :: "atom list"
  mof_pbc :: bool
  mof_cell :: mat3
  all_bonds :: "(nat \<times> nat) list"
  wrap :: bool

type_synonym located_bbs = "building_block option list"
type_synonym permutations = "nat list option list"

section \<open>The builder (builder.py)\<close>

subsection \<open>Placing the nodes (lines 51 to 66)\<close>

fun locate_nodes_of_type ::
  "externals \<Rightarrow> topology \<Rightarrow> nat \<Rightarrow> building_block \<Rightarrow> nat list \<Rightarrow> located_bbs
     \<Rightarrow> error + located_bbs" where
  "locate_nodes_of_type X T t node_bb [] located = Inr located"
| "locate_nodes_of_type X T t node_bb (i # is) located =
     (if t \<noteq> get_node_type T i then locate_nodes_of_type X T t node_bb is located
      else case locate X (local_structure T i) node_bb of
        Inl err \<Rightarrow> Inl err
      | Inr (located_node, rms) \<Rightarrow>
          if \<not> i < length (positions T) then Inl IndexError
          else if \<not> i < length located then Inl IndexError
          else locate_nodes_of_type X T t node_bb is
                 (located[i := Some (set_center located_node (positions T ! i))]))"

fun locate_nodes ::
  "externals \<Rightarrow> topology \<Rightarrow> nat \<Rightarrow> building_block list \<Rightarrow> located_bbs
     \<Rightarrow> error + located_bbs" where
  "locate_nodes X T t [] located = Inr located"
| "locate_nodes X T t (node_bb # node_bbs) located =
     (case locate_nodes_of_type X T t node_bb (node_indices T) located of
        Inl err \<Rightarrow> Inl err
      | Inr located' \<Rightarrow> locate_nodes X T (Suc t) node_bbs located')"

subsection \<open>Permutations of the nodes (lines 70 to 78)\<close>

fun node_permutations ::
  "externals \<Rightarrow> topology \<Rightarrow> located_bbs \<Rightarrow> nat list \<Rightarrow> permutations
     \<Rightarrow> error + permutations" where
  "node_permutations X T located [] perms = Inr perms"
| "node_permutations X T located (i # is) perms =
     (if \<not> i < length located then Inl IndexError
      else case located ! i of
        None \<Rightarrow> Inl AttributeError
      | Some bb \<Rightarrow>
          (case matching_permutation X (local_structure T i) (bb_local_structure X bb) of
             Inl err \<Rightarrow> Inl err
           | Inr perm \<Rightarrow>
               if \<not> i < length perms then Inl IndexError
               else node_permutations X T located is (perms[i := Some perm])))"

subsection \<open>Matched atoms of an edge (lines 80 to 117)\<close>

text \<open>\<^verbatim>\<open>n1, n2 = topology.neighbor_list[e]\<close>.\<close>

definition edge_neighbors :: "topology \<Rightarrow> nat \<Rightarrow> error + (neighbor \<times> neighbor)" where
  "edge_neighbors T e =
     (if \<not> e < length (neighbor_list T) then Inl IndexError
      else case neighbor_list T ! e of
        [n1, n2] \<Rightarrow> Inr (n1, n2)
      | _ \<Rightarrow> Inl ValueError)"

text \<open>The zero-sum test of lines 100 to 102.\<close>

definition zero_sum :: "neighbor \<Rightarrow> neighbor \<Rightarrow> bool" where
  "zero_sum n n1 = (norm3 (vadd (distance_vector n) (distance_vector n1)) < 0.001)"

text \<open>The scan of a neighbor list: the position \<open>o\<close> at which the loop breaks, if any.\<close>

fun first_zero_sum :: "neighbor \<Rightarrow> neighbor list \<Rightarrow> nat \<Rightarrow> nat option" where
  "first_zero_sum n1 [] o' = None"
| "first_zero_sum n1 (n # ns) o' =
     (if zero_sum n n1 then Some o' else first_zero_sum n1 ns (Suc o'))"

text \<open>\<^verbatim>\<open>a[perm]\<close> for integer arrays: numpy raises when an entry of \<open>perm\<close> is out of range.\<close>

definition fancy_index :: "nat list \<Rightarrow> nat list \<Rightarrow> error + nat list" where
  "fancy_index a perm =
     (if list_all (\<lambda>p. p < length a) perm then Inr (map (\<lambda>p. a ! p) perm)
      else Inl IndexError)"

text \<open>
  One of the two loops, for the endpoint \<open>i1\<close> with its block \<open>bb1\<close> and the edge's own
  record \<open>n1\<close>: \<open>None\<close> when no iteration assigned the atom index, so that the variable
  stays unbound.
\<close>

definition matched_atom ::
  "topology \<Rightarrow> permutations \<Rightarrow> nat \<Rightarrow> neighbor \<Rightarrow> building_block option
     \<Rightarrow> error + nat option" where
  "matched_atom T perms i1 n1 bb1 =
     (if \<not> i1 < length (neighbor_list T) then Inl IndexError
      else case first_zero_sum n1 (neighbor_list T ! i1) 0 of
        None \<Rightarrow> Inr None
      | Some o' \<Rightarrow>
          if \<not> i1 < length perms then Inl IndexError
          else (case bb1 of
            None \<Rightarrow> Inl AttributeError
          | Some b1 \<Rightarrow>
              (case perms ! i1 of
                 None \<Rightarrow> if o' = 0 then Inl ArrayValuedIndex else Inl IndexError
               | Some perm \<Rightarrow>
                   (case fancy_index (connection_point_indices b1) perm of
                      Inl err \<Rightarrow> Inl err
                    | Inr cps \<Rightarrow>
                        if o' < length cps then Inr (Some (cps ! o')) else Inl IndexError))))"

definition find_matched_atom_indices ::
  "topology \<Rightarrow> located_bbs \<Rightarrow> permutations \<Rightarrow> nat \<Rightarrow> error + (nat \<times> nat)" where
  "find_matched_atom_indices T located perms e =
     (case edge_neighbors T e of
        Inl err \<Rightarrow> Inl err
      | Inr (n1, n2) \<Rightarrow>
          if \<not> index n1 < length located then Inl IndexError
          else if \<not> index n2 < length located then Inl IndexError
          else (case matched_atom T perms (index n1) n1 (located ! index n1) of
            Inl err \<Rightarrow> Inl err
          | Inr a1 \<Rightarrow>
              (case matched_atom T perms (index n2) n2 (located ! index n2) of
                 Inl err \<Rightarrow> Inl err
               | Inr a2 \<Rightarrow>
                   (case (a1, a2) of
                      (Some a1', Some a2') \<Rightarrow> Inr (a1', a2')
                    | _ \<Rightarrow> Inl UnboundLocalError))))"

subsection \<open>Placing the edges (lines 120 to 159)\<close>

text \<open>\<^verbatim>\<open>bb.atoms.positions[a]\<close> on a block that may be \<^verbatim>\<open>None\<close>.\<close>

definition atom_position :: "building_block option \<Rightarrow> nat \<Rightarrow> error + vec3" where
  "atom_position bb a =
     (case bb of
        None \<Rightarrow> Inl AttributeError
      | Some b \<Rightarrow> if a < length (atoms b) then Inr (position (atoms b ! a)) else Inl IndexError)"

text \<open>
  The body of the inner loop for one edge \<open>e\<close> of the wanted type (lines 130 to 159).
  The progress line 159 formats the variable \<open>i\<close> left over from the loop of line 71,
  which is unbound when the topology has no node.
\<close>

definition locate_edge ::
  "externals \<Rightarrow> topology \<Rightarrow> mat3 \<Rightarrow> mat3 \<Rightarrow> building_block \<Rightarrow> permutations \<Rightarrow> nat
     \<Rightarrow> located_bbs \<Rightarrow> error + located_bbs" where
  "locate_edge X T c invc edge_bb perms e located =
     (case edge_neighbors T e of
        Inl err \<Rightarrow> Inl err
      | Inr (n1, n2) \<Rightarrow>
          if \<not> index n1 < length located then Inl IndexError
          else if \<not> index n2 < length located then Inl IndexError
          else (case find_matched_atom_indices T located perms e of
            Inl err \<Rightarrow> Inl err
          | Inr (a1, a2) \<Rightarrow>
              (case atom_position (located ! index n1) a1 of
                 Inl err \<Rightarrow> Inl err
               | Inr r1 \<Rightarrow>
                   (case atom_position (located ! index n2) a2 of
                      Inl err \<Rightarrow> Inl err
                    | Inr r2 \<Rightarrow>
                        (let d = minimum_image (vsub r2 r1) invc c;
                             center' = vadd r1 (vscale 0.5 d);
                             target = \<lparr>ls_positions = [r1, vadd r1 d],
                                       ls_indices = [index n1, index n2]\<rparr>
                         in case locate X target edge_bb of
                           Inl err \<Rightarrow> Inl err
                         | Inr (located_edge, rms) \<Rightarrow>
                             if \<not> e < length located then Inl IndexError
                             else if node_indices T = [] then Inl UnboundLocalError
                             else Inr (located[e := Some (set_center located_edge center')]))))))"

fun locate_edges_of_type ::
  "externals \<Rightarrow> topology \<Rightarrow> mat3 \<Rightarrow> mat3 \<Rightarrow> nat \<times> nat \<Rightarrow> building_block \<Rightarrow> permutations
     \<Rightarrow> nat list \<Rightarrow> located_bbs \<Rightarrow> error + located_bbs" where
  "locate_edges_of_type X T c invc t edge_bb perms [] located = Inr located"
| "locate_edges_of_type X T c invc t edge_bb perms (e # es) located =
     (if t \<noteq> get_edge_type T e then locate_edges_of_type X T c invc t edge_bb perms es located
      else case locate_edge X T c invc edge_bb perms e located of
        Inl err \<Rightarrow> Inl err
      | Inr located' \<Rightarrow> locate_edges_of_type X T c invc t edge_bb perms es located')"

text \<open>The outer loop over \<^verbatim>\<open>edge_bbs.items()\<close>, in the order of the dictionary.\<close>

fun locate_edges ::
  "externals \<Rightarrow> topology \<Rightarrow> mat3 \<Rightarrow> mat3 \<Rightarrow> permutations \<Rightarrow> edge_bbs \<Rightarrow> located_bbs
     \<Rightarrow> error + located_bbs" where
  "locate_edges X T c invc perms [] located = Inr located"
| "locate_edges X T c invc perms ((t, None) # items) located =
     locate_edges X T c invc perms items located"
| "locate_edges X T c invc perms ((t, Some edge_bb) # items) located =
     (case locate_edges_of_type X T c invc t edge_bb perms (edge_indices T) located of
        Inl err \<Rightarrow> Inl err
      | Inr located' \<Rightarrow> locate_edges X T c invc perms items located')"

subsection \<open>Permutations of the edges (lines 162 to 171)\<close>

fun edge_permutations ::
  "externals \<Rightarrow> topology \<Rightarrow> located_bbs \<Rightarrow> nat list \<Rightarrow> permutations
     \<Rightarrow> error + permutations" where
  "edge_permutations X T located [] perms = Inr perms"
| "edge_permutations X T located (i # is) perms =
     (if \<not> i < length located then Inl IndexError
      else case located ! i of
        None \<Rightarrow> edge_permutations X T located is perms
      | Some bb \<Rightarrow>
          (case matching_permutation X (local_structure T i) (bb_local_structure X bb) of
             Inl err \<Rightarrow> Inl err
           | Inr perm \<Rightarrow>
               if \<not> i < length perms then Inl IndexError
               else edge_permutations X T located is (perms[i := Some perm])))"

subsection \<open>Index offsets (lines 176 to 182)\<close>

text \<open>
  The loop over \<^verbatim>\<open>enumerate(located_bbs[:-1])\<close>. The list starts as placeholders (the
  source's \<^verbatim>\<open>None\<close>, here 0); every slot is written before it is read.
\<close>

fun index_offsets_loop :: "nat \<Rightarrow> located_bbs \<Rightarrow> nat list \<Rightarrow> nat list" where
  "index_offsets_loop i [] index_offsets = index_offsets"
| "index_offsets_loop i (bb # bbs) index_offsets =
     index_offsets_loop (Suc i) bbs
       (index_offsets[Suc i := (case bb of
                                  None \<Rightarrow> index_offsets ! i + 0
                                | Some b \<Rightarrow> index_offsets ! i + n_atoms b)])"

definition make_index_offsets :: "located_bbs \<Rightarrow> error + nat list" where
  "make_index_offsets located =
     (if located = [] then Inl IndexError
      else Inr (index_offsets_loop 0 (butlast located)
                  ((replicate (length located) 0)[0 := 0])))"

text \<open>The number of atoms that a point contributes to the offsets (lines 179 to 182).\<close>

definition atom_count :: "building_block option \<Rightarrow> nat" where
  "atom_count bb = (case bb of None \<Rightarrow> 0 | Some b \<Rightarrow> n_atoms b)"

subsection \<open>Bonds (lines 184 to 222)\<close>

text \<open>\<^verbatim>\<open>bb.bonds + offset\<close>: the offset is added to both atom indices of every bond.\<close>

definition shift_bonds :: "(nat \<times> nat) list \<Rightarrow> nat \<Rightarrow> (nat \<times> nat) list" where
  "shift_bonds bs offset = map (\<lambda>(a, b). (a + offset, b + offset)) bs"

text \<open>The list of arrays collected by the loop of lines 185 to 188.\<close>

fun bb_bonds_list :: "(nat \<times> building_block option) list \<Rightarrow> (nat \<times> nat) list list"
  where
  "bb_bonds_list [] = []"
| "bb_bonds_list ((offset, None) # rest) = bb_bonds_list rest"
| "bb_bonds_list ((offset, Some bb) # rest) = shift_bonds (bonds bb) offset # bb_bonds_list rest"

text \<open>\<^verbatim>\<open>np.concatenate\<close> of a list of arrays raises on the empty list.\<close>

definition bb_bonds :: "nat list \<Rightarrow> located_bbs \<Rightarrow> error + (nat \<times> nat) list" where
  "bb_bonds index_offsets located =
     (case bb_bonds_list (zip index_offsets located) of
        [] \<Rightarrow> Inl ValueError
      | arrays \<Rightarrow> Inr (concat arrays))"

text \<open>The bonds that the body of the loop of lines 195 to 217 appends for the edge \<open>j\<close>.\<close>

definition edge_bonds ::
  "topology \<Rightarrow> located_bbs \<Rightarrow> permutations \<Rightarrow> nat list \<Rightarrow> nat \<Rightarrow> error + (nat \<times> nat) list"
  where
  "edge_bonds T located perms index_offsets j =
     (case find_matched_atom_indices T located perms j of
        Inl err \<Rightarrow> Inl err
      | Inr (a1, a2) \<Rightarrow>
          (case edge_neighbors T j of
             Inl err \<Rightarrow> Inl err
           | Inr (n1, n2) \<Rightarrow>
               if \<not> index n1 < length index_offsets then Inl IndexError
               else if \<not> index n2 < length index_offsets then Inl IndexError
               else if \<not> j < length located then Inl IndexError
               else (case located ! j of
                 None \<Rightarrow> Inr [(a1 + index_offsets ! index n1, a2 + index_offsets ! index n2)]
               | Some bb \<Rightarrow>
                   if \<not> j < length perms then Inl IndexError
                   else (case perms ! j of
                     None \<Rightarrow> Inl ValueError
                   | Some perm \<Rightarrow>
                       (case fancy_index (connection_point_indices bb) perm of
                          Inl err \<Rightarrow> Inl err
                        | Inr cps \<Rightarrow>
                            if \<not> j < length index_offsets then Inl IndexError
                            else (case map (\<lambda>c. c + index_offsets ! j) cps of
                              [e1, e2] \<Rightarrow>
                                Inr [(e1, a1 + index_offsets ! index n1),
                                     (e2, a2 + index_offsets ! index n2)]
                            | _ \<Rightarrow> Inl ValueError))))))"

fun inter_bonds ::
  "topology \<Rightarrow> located_bbs \<Rightarrow> permutations \<Rightarrow> nat list \<Rightarrow> nat list \<Rightarrow> (nat \<times> nat) list
     \<Rightarrow> error + (nat \<times> nat) list" where
  "inter_bonds T located perms index_offsets [] bonds' = Inr bonds'"
| "inter_bonds T located perms index_offsets (j # js) bonds' =
     (case edge_bonds T located perms index_offsets j of
        Inl err \<Rightarrow> Inl err
      | Inr new \<Rightarrow> inter_bonds T located perms index_offsets js (bonds' @ new))"

subsection \<open>Assembly (lines 173 to 235)\<close>

text \<open>
  \<^verbatim>\<open>np.concatenate([bb_bonds, bonds], axis=0)\<close> raises when \<open>bonds\<close> is empty, since
  \<^verbatim>\<open>np.array([])\<close> has one dimension and \<open>bb_bonds\<close> two. \<^verbatim>\<open>sum(l[1:], l[0])\<close> of the
  atoms of the blocks is their concatenation in the order of the points.
\<close>

definition assemble :: "topology \<Rightarrow> located_bbs \<Rightarrow> permutations \<Rightarrow> error + MOF" where
  "assemble T located perms =
     (case make_index_offsets located of
        Inl err \<Rightarrow> Inl err
      | Inr offsets \<Rightarrow>
          (case bb_bonds offsets located of
             Inl err \<Rightarrow> Inl err
           | Inr bbb \<Rightarrow>
               (case inter_bonds T located perms offsets (edge_indices T) [] of
                  Inl err \<Rightarrow> Inl err
                | Inr bonds' \<Rightarrow>
                    if bonds' = [] then Inl ValueError
                    else (case map atoms (List.map_filter id located) of
                      [] \<Rightarrow> Inl IndexError
                    | first # others \<Rightarrow>
                        Inr \<lparr>mof_atoms = foldl (@) first others,
                             mof_pbc = True,
                             mof_cell = cell T,
                             all_bonds = bbb @ bonds',
                             wrap = True\<rparr>))))"

subsection \<open>Placement (lines 21 to 171) and the build\<close>

text \<open>
  \<open>edge_bbs\<close> is the optional dictionary of the call, as its items in order;
  \<open>default_edge_bbs\<close> is lines 21 to 24, the items of the \<^verbatim>\<open>defaultdict\<close>, which the
  builder only iterates over. The placement returns the scaled topology, the located
  blocks and the permutations. The
  intrinsic bonds are a field of the block here, so that the reads of lines 35 to 41,
  which only fill a cache, leave no trace.
\<close>

definition default_edge_bbs :: "edge_bbs option \<Rightarrow> edge_bbs" where
  "default_edge_bbs edge_bbs = (case edge_bbs of None \<Rightarrow> [] | Some items \<Rightarrow> items)"

definition place ::
  "externals \<Rightarrow> topology \<Rightarrow> building_block list \<Rightarrow> edge_bbs option
     \<Rightarrow> error + (topology \<times> located_bbs \<times> permutations)" where
  "place X topology node_bbs edge_bbs =
     (let edge_bbs = default_edge_bbs edge_bbs in
      if n_node_types topology \<noteq> length node_bbs then Inl AssertionError
      else case scale X topology node_bbs edge_bbs of
        Inl err \<Rightarrow> Inl err
      | Inr T \<Rightarrow>
          (case locate_nodes X T 0 node_bbs (replicate (n_all_points T) None) of
             Inl err \<Rightarrow> Inl err
           | Inr located \<Rightarrow>
               (case node_permutations X T located (node_indices T)
                       (replicate (n_all_points T) None) of
                  Inl err \<Rightarrow> Inl err
                | Inr perms \<Rightarrow>
                    (case inv3 (cell T) of
                       None \<Rightarrow> Inl LinAlgError
                     | Some invc \<Rightarrow>
                         (case locate_edges X T (cell T) invc perms edge_bbs located of
                            Inl err \<Rightarrow> Inl err
                          | Inr located' \<Rightarrow>
                              (case edge_permutations X T located' (edge_indices T) perms of
                                 Inl err \<Rightarrow> Inl err
                               | Inr perms' \<Rightarrow> Inr (T, located', perms')))))))"

text \<open>\<open>verbose\<close> only selects whether progress lines are printed.\<close>

definition build ::
  "externals \<Rightarrow> topology \<Rightarrow> building_block list \<Rightarrow> edge_bbs option \<Rightarrow> bool \<Rightarrow> error + MOF"
  where
  "build X topology node_bbs edge_bbs verbose =
     (case place X topology node_bbs edge_bbs of
        Inl err \<Rightarrow> Inl err
      | Inr (T, located, perms) \<Rightarrow> assemble T located perms)"

section \<open>Endpoints with a block and a valid permutation\<close>

text \<open>
  A permutation of \<open>[0, k)\<close>, and an endpoint record \<open>n\<close> of an edge whose point has a
  located block \<open>bb\<close> and a permutation \<open>perm\<close> of its neighbor slots, the block having
  one connection point per slot.
\<close>

definition valid_permutation :: "nat list \<Rightarrow> nat \<Rightarrow> bool" where
  "valid_permutation perm k = (sort perm = [0..<k])"

definition endpoint_ready ::
  "topology \<Rightarrow> located_bbs \<Rightarrow> permutations \<Rightarrow> neighbor \<Rightarrow> building_block \<Rightarrow> nat list \<Rightarrow> bool"
  where
  "endpoint_ready T located perms n bb perm =
     (index n < length located \<and> index n < length perms \<and> index n < length (neighbor_list T)
      \<and> located ! index n = Some bb \<and> perms ! index n = Some perm
      \<and> valid_permutation perm (length (neighbor_list T ! index n))
      \<and> length (connection_point_indices bb) = length (neighbor_list T ! index n))"

section \<open>Blocks centred at their points\<close>

text \<open>Every block of the list has its centre at the position of its point.\<close>

definition centered :: "topology \<Rightarrow> located_bbs \<Rightarrow> bool" where
  "centered T located =
     (\<forall>i b. i < length located \<and> located ! i = Some b \<longrightarrow> center b = positions T ! i)"

text \<open>
  Modelled from the spec: the centroid of a block belongs to the building-block class,
  which is not among the sources. The spec (section 3) has the local structure of a block
  derived from its connection points relative to its centroid; the centroid of a list of
  points is their mean.
\<close>

definition centroid :: "vec3 list \<Rightarrow> vec3" where
  "centroid ps = vscale (1 / real (length ps)) (foldr vadd ps (0, 0, 0))"

text \<open>
  Modelled from the spec: the connection points of a block (section 3), the positions
  of its connection atoms in the order of \<open>connection_point_indices\<close>.
\<close>

definition connection_points :: "building_block \<Rightarrow> vec3 list" where
  "connection_points bb = map (\<lambda>i. position (atoms bb ! i)) (connection_point_indices bb)"

text \<open>
  Modelled from the spec: a block with at least one connection atom, all of them atoms of
  the block, whose centre is the centroid of its connection points.
\<close>

definition centroid_at_center :: "building_block \<Rightarrow> bool" where
  "centroid_at_center bb =
     (connection_point_indices bb \<noteq> []
      \<and> list_all (\<lambda>i. i < length (atoms bb)) (connection_point_indices bb)
      \<and> center bb = centroid (connection_points bb))"

text \<open>Every block of the list has its centre at the centroid of its connection points.\<close>

definition all_at_centroid :: "located_bbs \<Rightarrow> bool" where
  "all_at_centroid located =
     (\<forall>i b. i < length located \<and> located ! i = Some b \<longrightarrow> centroid_at_center b)"

text \<open>
  The centre that lines 140 to 151 give to the block of the edge \<open>e\<close>: the midpoint
  \<open>r1 + 0.5 d\<close> of the two matched atoms, \<open>d\<close> being their minimum-image displacement.
\<close>

definition edge_midpoint ::
  "topology \<Rightarrow> located_bbs \<Rightarrow> permutations \<Rightarrow> mat3 \<Rightarrow> nat \<Rightarrow> vec3 option" where
  "edge_midpoint T located perms invc e =
     (case edge_neighbors T e of
        Inl err \<Rightarrow> None
      | Inr (n1, n2) \<Rightarrow>
          (case find_matched_atom_indices T located perms e of
             Inl err \<Rightarrow> None
           | Inr (a1, a2) \<Rightarrow>
               (case atom_position (located ! index n1) a1 of
                  Inl err \<Rightarrow> None
                | Inr r1 \<Rightarrow>
                    (case atom_position (located ! index n2) a2 of
                       Inl err \<Rightarrow> None
                     | Inr r2 \<Rightarrow>
                         Some (vadd r1
                                 (vscale 0.5 (minimum_image (vsub r2 r1) invc (cell T))))))))"

text \<open>The block at \<open>e\<close>, if any, has its centre at the midpoint of the matched atoms.\<close>

definition at_midpoint ::
  "topology \<Rightarrow> permutations \<Rightarrow> mat3 \<Rightarrow> nat \<Rightarrow> located_bbs \<Rightarrow> bool" where
  "at_midpoint T perms invc e located =
     (case located ! e of
        None \<Rightarrow> True
      | Some b \<Rightarrow> edge_midpoint T located perms invc e = Some (center b))"

section \<open>A small periodic chain\<close>

text \<open>
  One node (point 0) at the origin of a cubic cell of side 2 and one edge (point 1)
  that links the node to its own periodic image along the first axis. The node block
  has a metal atom and two connection atoms, at unequal distances from the centre (the
  wide node block has them 4 apart); the edge block has two connection atoms. The collaborators are the simplest ones: the
  scaler returns the topology as it is, the locator returns the template unrotated with
  RMSD 0, and the permutation is the identity on two slots.
\<close>

definition chain_topology :: topology where
  "chain_topology =
     \<lparr>n_node_types = 1, n_all_points = 2, node_indices = [0], edge_indices = [1],
      get_node_type = (\<lambda>i. 0), get_edge_type = (\<lambda>e. (0, 0)),
      local_structure = (\<lambda>i. \<lparr>ls_positions = [], ls_indices = []\<rparr>),
      neighbor_list =
        [[\<lparr>index = 1, distance_vector = (1, 0, 0)\<rparr>,
          \<lparr>index = 1, distance_vector = (- 1, 0, 0)\<rparr>],
         [\<lparr>index = 0, distance_vector = (- 1, 0, 0)\<rparr>,
          \<lparr>index = 0, distance_vector = (1, 0, 0)\<rparr>]],
      positions = [(0, 0, 0), (1, 0, 0)],
      cell = ((2, 0, 0), (0, 2, 0), (0, 0, 2))\<rparr>"

definition node_block :: building_block where
  "node_block =
     \<lparr>atoms = [\<lparr>symbol = ''Zn'', position = (0, 0, 0)\<rparr>,
               \<lparr>symbol = ''X'', position = (3 / 4, 0, 0)\<rparr>,
               \<lparr>symbol = ''X'', position = (- (1 / 2), 0, 0)\<rparr>],
      bonds = [(0, 1), (0, 2)],
      connection_point_indices = [1, 2],
      center = (0, 0, 0)\<rparr>"

definition wide_node_block :: building_block where
  "wide_node_block =
     \<lparr>atoms = [\<lparr>symbol = ''Zn'', position = (0, 0, 0)\<rparr>,
               \<lparr>symbol = ''X'', position = (3, 0, 0)\<rparr>,
               \<lparr>symbol = ''X'', position = (- 1, 0, 0)\<rparr>],
      bonds = [(0, 1), (0, 2)],
      connection_point_indices = [1, 2],
      center = (0, 0, 0)\<rparr>"

definition edge_block :: building_block where
  "edge_block =
     \<lparr>atoms = [\<lparr>symbol = ''X'', position = (- (1 / 4), 0, 0)\<rparr>,
               \<lparr>symbol = ''X'', position = (1 / 4, 0, 0)\<rparr>],
      bonds = [(0, 1)],
      connection_point_indices = [0, 1],
      center = (0, 0, 0)\<rparr>"

definition simple_externals :: externals where
  "simple_externals =
     \<lparr>scale = (\<lambda>T node_bbs edge_bbs. Inr T),
      locate = (\<lambda>target bb. Inr (bb, 0)),
      matching_permutation = (\<lambda>a b. Inr [0, 1]),
      bb_local_structure = (\<lambda>bb. \<lparr>ls_positions = [], ls_indices = []\<rparr>)\<rparr>"

definition half_cell :: mat3 where
  "half_cell = ((1 / 2, 0, 0), (0, 1 / 2, 0), (0, 0, 1 / 2))"

text \<open>The structure that the build of the chain with its edge block returns.\<close>

definition chain_mof :: MOF where
  "chain_mof =
     \<lparr>mof_atoms = [\<lparr>symbol = ''Zn'', position = (0, 0, 0)\<rparr>,
                   \<lparr>symbol = ''X'', position = (3 / 4, 0, 0)\<rparr>,
                   \<lparr>symbol = ''X'', position = (- (1 / 2), 0, 0)\<rparr>,
                   \<lparr>symbol = ''X'', position = (7 / 8, 0, 0)\<rparr>,
                   \<lparr>symbol = ''X'', position = (11 / 8, 0, 0)\<rparr>],
      mof_pbc = True,
      mof_cell = ((2, 0, 0), (0, 2, 0), (0, 0, 2)),
      all_bonds = [(0, 1), (0, 2), (3, 4), (3, 1), (4, 2)],
      wrap = True\<rparr>"

text \<open>The structure that the build of the chain without an edge block returns.\<close>

definition chain_mof_direct :: MOF where
  "chain_mof_direct =
     \<lparr>mof_atoms = [\<lparr>symbol = ''Zn'', position = (0, 0, 0)\<rparr>,
                   \<lparr>symbol = ''X'', position = (3 / 4, 0, 0)\<rparr>,
                   \<lparr>symbol = ''X'', position = (- (1 / 2), 0, 0)\<rparr>],
      mof_pbc = True,
      mof_cell = ((2, 0, 0), (0, 2, 0), (0, 0, 2)),
      all_bonds = [(0, 1), (0, 2), (1, 2)],
      wrap = True\<rparr>"

text \<open>
  The chain with a malformed neighbor list: the second record of the node does not point
  back along the edge, so that the second endpoint record of the edge has no reciprocal.
  The scaler of \<open>gapped_externals\<close> returns this topology.
\<close>

definition gapped_topology :: topology where
  "gapped_topology =
     chain_topology
       \<lparr>neighbor_list :=
          [[\<lparr>index = 1, distance_vector = (1, 0, 0)\<rparr>,
            \<lparr>index = 1, distance_vector = (0, 1, 0)\<rparr>],
           [\<lparr>index = 0, distance_vector = (- 1, 0, 0)\<rparr>,
            \<lparr>index = 0, distance_vector = (1, 0, 0)\<rparr>]]\<rparr>"

definition gapped_externals :: externals where
  "gapped_externals = simple_externals\<lparr>scale := (\<lambda>T node_bbs edge_bbs. Inr gapped_topology)\<rparr>"

text \<open>The chain with two node types in the type of its edge.\<close>

definition typed_chain_topology :: topology where
  "typed_chain_topology = chain_topology\<lparr>get_edge_type := (\<lambda>e. (0, 1))\<rparr>"

text \<open>The edge block of the chain as the placement leaves it.\<close>

definition placed_edge_block :: building_block where
  "placed_edge_block =
     \<lparr>atoms = [\<lparr>symbol = ''X'', position = (7 / 8, 0, 0)\<rparr>,
               \<lparr>symbol = ''X'', position = (11 / 8, 0, 0)\<rparr>],
      bonds = [(0, 1)],
      connection_point_indices = [0, 1],
      center = (9 / 8, 0, 0)\<rparr>"

text \<open>
  A chain of two nodes of different sizes: the large node (point 0) at 0 and the small
  node (point 1) at 2 in a cubic cell of side 4, the edges (points 2 and 3) at 1 and 3.
  Each node block has a metal atom at its centre and two connection atoms at equal
  distances on either side; the connection indices of the small node follow the order of
  its neighbor list, so that the identity permutation is the right one.
\<close>

definition two_node_chain :: topology where
  "two_node_chain =
     \<lparr>n_node_types = 2, n_all_points = 4, node_indices = [0, 1], edge_indices = [2, 3],
      get_node_type = (\<lambda>i. if i = 0 then 0 else 1), get_edge_type = (\<lambda>e. (0, 1)),
      local_structure = (\<lambda>i. \<lparr>ls_positions = [], ls_indices = []\<rparr>),
      neighbor_list =
        [[\<lparr>index = 2, distance_vector = (1, 0, 0)\<rparr>,
          \<lparr>index = 3, distance_vector = (- 1, 0, 0)\<rparr>],
         [\<lparr>index = 2, distance_vector = (- 1, 0, 0)\<rparr>,
          \<lparr>index = 3, distance_vector = (1, 0, 0)\<rparr>],
         [\<lparr>index = 0, distance_vector = (- 1, 0, 0)\<rparr>,
          \<lparr>index = 1, distance_vector = (1, 0, 0)\<rparr>],
         [\<lparr>index = 1, distance_vector = (- 1, 0, 0)\<rparr>,
          \<lparr>index = 0, distance_vector = (1, 0, 0)\<rparr>]],
      positions = [(0, 0, 0), (2, 0, 0), (1, 0, 0), (3, 0, 0)],
      cell = ((4, 0, 0), (0, 4, 0), (0, 0, 4))\<rparr>"

definition large_node :: building_block where
  "large_node =
     \<lparr>atoms = [\<lparr>symbol = ''Zn'', position = (0, 0, 0)\<rparr>,
               \<lparr>symbol = ''X'', position = (1 / 2, 0, 0)\<rparr>,
               \<lparr>symbol = ''X'', position = (- (1 / 2), 0, 0)\<rparr>],
      bonds = [(0, 1), (0, 2)],
      connection_point_indices = [1, 2],
      center = (0, 0, 0)\<rparr>"

definition small_node :: building_block where
  "small_node =
     \<lparr>atoms = [\<lparr>symbol = ''Cu'', position = (0, 0, 0)\<rparr>,
               \<lparr>symbol = ''X'', position = (1 / 4, 0, 0)\<rparr>,
               \<lparr>symbol = ''X'', position = (- (1 / 4), 0, 0)\<rparr>],
      bonds = [(0, 1), (0, 2)],
      connection_point_indices = [2, 1],
      center = (0, 0, 0)\<rparr>"

definition quarter_cell :: mat3 where
  "quarter_cell = ((1 / 4, 0, 0), (0, 1 / 4, 0), (0, 0, 1 / 4))"

definition placed_small_node :: building_block where
  "placed_small_node =
     \<lparr>atoms = [\<lparr>symbol = ''Cu'', position = (2, 0, 0)\<rparr>,
               \<lparr>symbol = ''X'', position = (9 / 4, 0, 0)\<rparr>,
               \<lparr>symbol = ''X'', position = (7 / 4, 0, 0)\<rparr>],
      bonds = [(0, 1), (0, 2)],
      connection_point_indices = [2, 1],
      center = (2, 0, 0)\<rparr>"

definition placed_edge_2 :: building_block where
  "placed_edge_2 =
     \<lparr>atoms = [\<lparr>symbol = ''X'', position = (7 / 8, 0, 0)\<rparr>,
               \<lparr>symbol = ''X'', position = (11 / 8, 0, 0)\<rparr>],
      bonds = [(0, 1)],
      connection_point_indices = [0, 1],
      center = (9 / 8, 0, 0)\<rparr>"

definition placed_edge_3 :: building_block where
  "placed_edge_3 =
     \<lparr>atoms = [\<lparr>symbol = ''X'', position = (21 / 8, 0, 0)\<rparr>,
               \<lparr>symbol = ''X'', position = (25 / 8, 0, 0)\<rparr>],
      bonds = [(0, 1)],
      connection_point_indices = [0, 1],
      center = (23 / 8, 0, 0)\<rparr>"

section \<open>The zero-sum test without the square root\<close>

lemma sqrt_small: "(sqrt x < 0.001) = (x < 0.000001)"
proof -
  have "sqrt (0.000001::real) = 0.001"
    by (rule real_sqrt_unique) (simp_all add: power2_eq_square)
  then show ?thesis
    by (metis real_sqrt_less_iff)
qed

lemma zero_sum_code [code]:
  "zero_sum n n1 =
     (case vadd (distance_vector n) (distance_vector n1) of
        (a1, a2, a3) \<Rightarrow> a1 * a1 + a2 * a2 + a3 * a3 < 0.000001)"
  by (cases "vadd (distance_vector n) (distance_vector n1)")
    (simp only: zero_sum_def norm3.simps sqrt_small prod.case)

section \<open>The scaled topology of a placement\<close>

lemma place_scale:
  "place X topology node_bbs edge_bbs = Inr (T, located, perms) \<Longrightarrow>
     scale X topology node_bbs (default_edge_bbs edge_bbs) = Inr T"
  by (auto simp: place_def Let_def split: if_splits sum.splits option.splits)

lemma place_full:
  assumes "map_sum id snd (place X topology node_bbs edge_bbs) = Inr (located, perms)"
    and "scale X topology node_bbs (default_edge_bbs edge_bbs) = Inr T"
  shows "place X topology node_bbs edge_bbs = Inr (T, located, perms)"
proof (cases "place X topology node_bbs edge_bbs")
  case (Inl err)
  with assms(1) show ?thesis by simp
next
  case (Inr r)
  obtain T' located' perms' where r: "r = (T', located', perms')" by (cases r)
  from place_scale [of X topology node_bbs edge_bbs T' located' perms'] Inr r assms(2)
  have "T' = T" by simp
  with assms(1) Inr r show ?thesis by simp
qed

section \<open>The builds of the chain\<close>

lemma chain_build:
  "build simple_externals chain_topology [node_block] (Some [((0, 0), Some edge_block)]) False
     = Inr chain_mof"
  by code_simp

lemma chain_place:
  "place simple_externals chain_topology [node_block] (Some [((0, 0), Some edge_block)])
     = Inr (chain_topology, [Some node_block, Some placed_edge_block],
            [Some [0, 1], Some [0, 1]])"
proof (rule place_full)
  show "map_sum id snd
          (place simple_externals chain_topology [node_block]
             (Some [((0, 0), Some edge_block)]))
        = Inr ([Some node_block, Some placed_edge_block], [Some [0, 1], Some [0, 1]])"
    by code_simp
  show "scale simple_externals chain_topology [node_block]
          (default_edge_bbs (Some [((0, 0), Some edge_block)])) = Inr chain_topology"
    by (simp add: simple_externals_def)
qed

lemma chain_place_direct:
  "map_sum id snd (place simple_externals chain_topology [node_block] None)
     = Inr ([Some node_block, None], [Some [0, 1], None])"
  by code_simp

lemma chain_assemble_direct:
  "assemble chain_topology [Some node_block, None] [Some [0, 1], None] = Inr chain_mof_direct"
  by code_simp



lemma typed_chain_place:
  "place simple_externals typed_chain_topology [node_block] (Some [((1, 0), Some edge_block)])
     = Inr (typed_chain_topology, [Some node_block, None], [Some [0, 1], None])"
proof (rule place_full)
  show "map_sum id snd
          (place simple_externals typed_chain_topology [node_block]
             (Some [((1, 0), Some edge_block)]))
        = Inr ([Some node_block, None], [Some [0, 1], None])"
    by code_simp
  show "scale simple_externals typed_chain_topology [node_block]
          (default_edge_bbs (Some [((1, 0), Some edge_block)])) = Inr typed_chain_topology"
    by (simp add: simple_externals_def)
qed

lemma chain_ready:
  "endpoint_ready chain_topology [Some node_block, None] [Some [0, 1], None]
     \<lparr>index = 0, distance_vector = (- 1, 0, 0)\<rparr> node_block [0, 1]"
  "endpoint_ready chain_topology [Some node_block, None] [Some [0, 1], None]
     \<lparr>index = 0, distance_vector = (1, 0, 0)\<rparr> node_block [0, 1]"
  by (simp_all add: endpoint_ready_def chain_topology_def node_block_def valid_permutation_def)

lemma gapped_ready:
  "endpoint_ready gapped_topology [Some node_block, None] [Some [0, 1], None]
     \<lparr>index = 0, distance_vector = (- 1, 0, 0)\<rparr> node_block [0, 1]"
  "endpoint_ready gapped_topology [Some node_block, None] [Some [0, 1], None]
     \<lparr>index = 0, distance_vector = (1, 0, 0)\<rparr> node_block [0, 1]"
  by (simp_all add: endpoint_ready_def gapped_topology_def chain_topology_def node_block_def
      valid_permutation_def)

section \<open>Properties of the minimum-image step\<close>

lemma wrap_component_range:
  "\<bar>s\<bar> > 1/2 \<Longrightarrow>
     (- (1/2) \<le> wrap_component s \<and> wrap_component s < 1/2) = (- (3/2) \<le> s \<and> s < 3/2)"
  by (auto simp: wrap_component_def Let_def)

lemma components_wrap_fractional:
  "i < 3 \<Longrightarrow> components (wrap_fractional v) ! i = wrap_component (components v ! i)"
  by (cases v; cases i rule: nat.exhaust; simp add: nth_Cons')

text \<open>
  C3, as stated, fails: the two selections shift a component by one cell at most. In
  the chain with the wide node block, whose connection atoms are 4 apart in a cell of
  side 2, the matched atoms of the edge are at \<open>r1 = (3, 0, 0)\<close> and \<open>r2 = (-1, 0, 0)\<close>;
  the displacement \<open>r2 - r1\<close> has the fractional component -2, which is wrapped to -1,
  outside [-0.5, 0.5).
\<close>

theorem minimum_image_counterexample:
  "inv3 (cell chain_topology) = Some half_cell
   \<and> find_matched_atom_indices chain_topology [Some wide_node_block, None]
         [Some [0, 1], None] 1 = Inr (1, 2)
   \<and> atom_position (Some wide_node_block) 1 = Inr (3, 0, 0)
   \<and> atom_position (Some wide_node_block) 2 = Inr (- 1, 0, 0)
   \<and> vsub (- 1, 0, 0) (3, 0, 0) = (- 4, 0, 0)
   \<and> \<bar>components (raw_fractional (- 4, 0, 0) half_cell) ! 0\<bar> > 0.5
   \<and> components (wrapped_fractional (- 4, 0, 0) half_cell) ! 0 = - 1
   \<and> \<not> (- 0.5 \<le> components (wrapped_fractional (- 4, 0, 0) half_cell) ! 0
        \<and> components (wrapped_fractional (- 4, 0, 0) half_cell) ! 0 < 0.5)"
proof -
  have "find_matched_atom_indices chain_topology [Some wide_node_block, None]
         [Some [0, 1], None] 1 = Inr (1, 2)"
    by code_simp
  then show ?thesis
    by (simp add: chain_topology_def half_cell_def raw_fractional_def wrapped_fractional_def
        wrap_component_def atom_position_def wide_node_block_def)
qed

text \<open>
  C3, amended: a fractional component whose raw magnitude exceeds 0.5 lies in
  [-0.5, 0.5) after the wrapping step exactly when its raw value lies in [-1.5, 1.5).
\<close>

theorem minimum_image_component_range:
  assumes "i < 3" and "\<bar>components (raw_fractional d invc) ! i\<bar> > 0.5"
  shows "(- 0.5 \<le> components (wrapped_fractional d invc) ! i
          \<and> components (wrapped_fractional d invc) ! i < 0.5)
         = (- 1.5 \<le> components (raw_fractional d invc) ! i
            \<and> components (raw_fractional d invc) ! i < 1.5)"
  using assms wrap_component_range [of "components (raw_fractional d invc) ! i"]
  by (simp add: wrapped_fractional_def components_wrap_fractional)

theorem minimum_image_component_range_witness:
  "(0::nat) < 3 \<and> \<bar>components (raw_fractional (- (5 / 2), 0, 0) half_cell) ! 0\<bar> > 0.5
   \<and> - 0.5 \<le> components (wrapped_fractional (- (5 / 2), 0, 0) half_cell) ! 0
   \<and> components (wrapped_fractional (- (5 / 2), 0, 0) half_cell) ! 0 < 0.5"
  using minimum_image_component_range [of 0 "(- (5 / 2), 0, 0)" half_cell]
  by (simp add: half_cell_def raw_fractional_def)

section \<open>The cardinality check\<close>

text \<open>
  C8: when the number of node templates differs from the number of node types of the
  topology, the build fails with the assertion error of line 31, whatever the
  collaborators would do: none of them is reached, and no structure is returned.
\<close>

theorem build_cardinality:
  "n_node_types topology \<noteq> length node_bbs \<Longrightarrow>
     build X topology node_bbs edge_bbs verbose = Inl AssertionError"
  by (simp add: build_def place_def)

theorem build_cardinality_witness:
  "n_node_types chain_topology \<noteq> length [node_block, node_block]
   \<and> build simple_externals chain_topology [node_block, node_block] None False
       = Inl AssertionError"
  using build_cardinality [of chain_topology "[node_block, node_block]" simple_externals
      None False]
  by (simp add: chain_topology_def)

section \<open>The wrap flag\<close>

lemma assemble_wrap: "assemble T located perms = Inr mof \<Longrightarrow> wrap mof \<and> mof_pbc mof"
  by (auto simp: assemble_def split: sum.splits if_splits list.splits)

text \<open>
  C10: every structure that a build returns was constructed with the wrap flag set
  (and with periodic boundary conditions), for all arguments of the build, so that no
  argument turns the wrapping off.
\<close>

theorem build_wrap:
  "build X topology node_bbs edge_bbs verbose = Inr mof \<Longrightarrow> wrap mof"
  by (auto simp: build_def dest: assemble_wrap split: sum.splits)

theorem build_wrap_witness:
  "build simple_externals chain_topology [node_block] (Some [((0, 0), Some edge_block)]) False
     = Inr chain_mof \<and> wrap chain_mof"
  using build_wrap [OF chain_build] chain_build by simp

section \<open>The index offsets\<close>

lemma length_index_offsets_loop [simp]:
  "length (index_offsets_loop i bbs offs) = length offs"
  by (induction bbs arbitrary: i offs) auto

lemma index_offsets_loop_nth:
  "i + length bbs < length offs \<Longrightarrow>
     index_offsets_loop i bbs offs ! k =
       (if i < k \<and> k \<le> i + length bbs
        then offs ! i + sum_list (map atom_count (take (k - i) bbs))
        else offs ! k)"
proof (induction bbs arbitrary: i offs)
  case Nil
  then show ?case by simp
next
  case (Cons bb bbs)
  let ?offs = "offs[Suc i := offs ! i + atom_count bb]"
  have upd: "(case bb of None \<Rightarrow> offs ! i + 0 | Some b \<Rightarrow> offs ! i + n_atoms b)
               = offs ! i + atom_count bb"
    by (simp add: atom_count_def split: option.splits)
  have len: "Suc i + length bbs < length ?offs"
    using Cons.prems by simp
  have "index_offsets_loop i (bb # bbs) offs ! k = index_offsets_loop (Suc i) bbs ?offs ! k"
    by (simp only: index_offsets_loop.simps upd)
  also have "\<dots> = (if Suc i < k \<and> k \<le> Suc i + length bbs
        then ?offs ! Suc i + sum_list (map atom_count (take (k - Suc i) bbs))
        else ?offs ! k)"
    by (rule Cons.IH [OF len])
  also have "\<dots> = (if i < k \<and> k \<le> i + length (bb # bbs)
        then offs ! i + sum_list (map atom_count (take (k - i) (bb # bbs)))
        else offs ! k)"
    using Cons.prems by (cases "k = Suc i") (auto simp: take_Cons' nth_list_update)
  finally show ?case .
qed

lemma make_index_offsets_nth:
  assumes "make_index_offsets located = Inr offs"
  shows "length offs = length located"
    and "k < length located \<Longrightarrow> offs ! k = sum_list (map atom_count (take k located))"
proof -
  from assms have ne: "located \<noteq> []"
    and offs: "offs = index_offsets_loop 0 (butlast located) ((replicate (length located) 0)[0 := 0])"
    by (auto simp: make_index_offsets_def split: if_splits)
  show "length offs = length located" by (simp add: offs)
  assume k: "k < length located"
  have "0 + length (butlast located) < length ((replicate (length located) (0::nat))[0 := 0])"
    using ne by simp
  from index_offsets_loop_nth [OF this, of k] k ne
  show "offs ! k = sum_list (map atom_count (take k located))"
    by (auto simp: offs take_butlast)
qed

lemma length_foldl_append:
  "length (foldl (@) a as) = length a + sum_list (map length as)"
  by (induction as arbitrary: a) auto

lemma atoms_total:
  "sum_list (map length (map atoms (List.map_filter id located))) = sum_list (map atom_count located)"
  by (induction located) (auto simp: List.map_filter_simps atom_count_def n_atoms_def split: option.splits)

lemma assemble_atoms:
  assumes "assemble T located perms = Inr mof"
  shows "length (mof_atoms mof) = sum_list (map atom_count located)"
proof -
  from assms obtain first others where
    fo: "map atoms (List.map_filter id located) = first # others"
    and m: "mof_atoms mof = foldl (@) first others"
    by (auto simp: assemble_def split: sum.splits if_splits list.splits)
  have "length (mof_atoms mof) = sum_list (map length (first # others))"
    by (simp add: m length_foldl_append)
  then show ?thesis
    by (simp only: fo [symmetric] atoms_total)
qed

lemma sum_take_mono:
  "i \<le> j \<Longrightarrow> sum_list (map f (take i xs)) \<le> (sum_list (map f (take j xs)) :: nat)"
proof -
  assume "i \<le> j"
  then have "take j xs = take i xs @ take (j - i) (drop i xs)"
    by (metis le_add_diff_inverse take_add)
  then show ?thesis by simp
qed

lemma sum_take_Suc:
  "i < length xs \<Longrightarrow> sum_list (map f (take (Suc i) xs)) = sum_list (map f (take i xs)) + (f (xs ! i) :: nat)"
  by (simp add: take_Suc_conv_app_nth)

lemma sum_all_None:
  "\<forall>j. k < j \<and> j < length located \<longrightarrow> located ! j = None \<Longrightarrow> k < length located \<Longrightarrow>
     sum_list (map atom_count located) = sum_list (map atom_count (take (Suc k) located))"
proof -
  assume a: "\<forall>j. k < j \<and> j < length located \<longrightarrow> located ! j = None" and k: "k < length located"
  have "\<forall>x \<in> set (drop (Suc k) located). atom_count x = 0"
  proof
    fix x assume "x \<in> set (drop (Suc k) located)"
    then obtain n where "n < length located - Suc k" "x = located ! (Suc k + n)"
      by (auto simp: in_set_conv_nth)
    with a show "atom_count x = 0" by (simp add: atom_count_def)
  qed
  then have "sum_list (map atom_count (drop (Suc k) located)) = 0"
    by simp
  moreover have "located = take (Suc k) located @ drop (Suc k) located" by simp
  ultimately show ?thesis
    by (metis add.right_neutral map_append sum_list.append)
qed

text \<open>
  C4, as stated, fails in its last part: when the last point has no block, the final
  offset already counts the last existing block. The chain without an edge block has
  the offsets [0, 3]; the final offset plus the 3 atoms of the node block is 6, and the
  structure has 3 atoms.
\<close>

theorem index_offsets_counterexample:
  "map_sum id snd (place simple_externals chain_topology [node_block] None)
     = Inr ([Some node_block, None], [Some [0, 1], None])
   \<and> make_index_offsets [Some node_block, None] = Inr [0, 3]
   \<and> assemble chain_topology [Some node_block, None] [Some [0, 1], None] = Inr chain_mof_direct
   \<and> last (List.map_filter id [Some node_block, None]) = node_block
   \<and> last [0, 3 :: nat] + n_atoms node_block \<noteq> length (mof_atoms chain_mof_direct)"
  by (intro conjI chain_place_direct chain_assemble_direct; code_simp)

text \<open>
  C4, amended: the offsets start at 0; for every point \<open>i\<close> but the last,
  \<open>offset[i+1] = offset[i]\<close> plus the atom count of the block at \<open>i\<close>, which is 0 for
  an absent block; the offsets are natural numbers and do not decrease; and when the
  structure is assembled, its atom count is the final offset plus the atom count at the
  last point (0 when that point has no block), which is also the offset of the last
  existing block plus that block's atom count.
\<close>

theorem index_offsets_prefix_sums:
  assumes "make_index_offsets located = Inr offs"
  shows "length offs = length located \<and> offs ! 0 = 0
    \<and> (\<forall>i. Suc i < length located \<longrightarrow> offs ! Suc i = offs ! i + atom_count (located ! i))
    \<and> (\<forall>i. Suc i < length located \<and> located ! i = None \<longrightarrow> offs ! Suc i = offs ! i)
    \<and> (\<forall>i j. i \<le> j \<and> j < length located \<longrightarrow> offs ! i \<le> offs ! j)
    \<and> (\<forall>T perms mof. assemble T located perms = Inr mof \<longrightarrow>
          last offs + atom_count (last located) = length (mof_atoms mof)
          \<and> (\<forall>k b. k < length located \<and> located ! k = Some b
                 \<and> (\<forall>j. k < j \<and> j < length located \<longrightarrow> located ! j = None)
               \<longrightarrow> offs ! k + n_atoms b = length (mof_atoms mof)))"
proof -
  note nth = make_index_offsets_nth [OF assms]
  from assms have ne: "located \<noteq> []"
    by (auto simp: make_index_offsets_def split: if_splits)
  have zero: "offs ! 0 = 0"
    using nth(2) [of 0] ne by simp
  have step: "offs ! Suc i = offs ! i + atom_count (located ! i)" if "Suc i < length located" for i
    using that nth(2) [of i] nth(2) [of "Suc i"] by (simp add: sum_take_Suc)
  have absent: "offs ! Suc i = offs ! i" if "Suc i < length located" "located ! i = None" for i
    using step [OF that(1)] that(2) by (simp add: atom_count_def)
  have mono: "offs ! i \<le> offs ! j" if "i \<le> j" "j < length located" for i j
    using that nth(2) [of i] nth(2) [of j] by (simp add: sum_take_mono)
  have total: "last offs + atom_count (last located) = length (mof_atoms mof)"
    if "assemble T located perms = Inr mof" for T perms mof
  proof -
    have "last offs = offs ! (length located - 1)"
      using ne nth(1) by (metis last_conv_nth length_0_conv)
    also have "\<dots> = sum_list (map atom_count (take (length located - 1) located))"
      using ne by (simp add: nth(2))
    finally have "last offs + atom_count (last located)
        = sum_list (map atom_count (take (length located - 1) located @ [last located]))"
      by simp
    also have "take (length located - 1) located @ [last located] = located"
      using ne by (metis append_butlast_last_id butlast_conv_take)
    finally show ?thesis
      by (simp add: assemble_atoms [OF that])
  qed
  have lastblock: "offs ! k + n_atoms b = length (mof_atoms mof)"
    if "assemble T located perms = Inr mof" "k < length located" "located ! k = Some b"
      "\<forall>j. k < j \<and> j < length located \<longrightarrow> located ! j = None" for T perms mof k b
  proof -
    have "offs ! k + n_atoms b = sum_list (map atom_count (take (Suc k) located))"
      using that(2,3) by (simp add: nth(2) sum_take_Suc atom_count_def)
    also have "\<dots> = sum_list (map atom_count located)"
      using sum_all_None [OF that(4) that(2)] by simp
    finally show ?thesis
      by (simp add: assemble_atoms [OF that(1)])
  qed
  show ?thesis
    using nth(1) zero step absent mono total lastblock by blast
qed

theorem index_offsets_prefix_sums_witness:
  "make_index_offsets [Some node_block, None] = Inr [0, 3]
   \<and> last [0, 3 :: nat] + atom_count (last [Some node_block, None])
       = length (mof_atoms chain_mof_direct)"
proof -
  have a: "make_index_offsets [Some node_block, None] = Inr [0, 3]"
    by code_simp
  from index_offsets_prefix_sums [OF a] chain_assemble_direct a show ?thesis
    by blast
qed

section \<open>The matched atoms of an edge\<close>

lemma first_zero_sum_first:
  "k < length ns \<Longrightarrow> zero_sum (ns ! k) n1 \<Longrightarrow> \<forall>j<k. \<not> zero_sum (ns ! j) n1 \<Longrightarrow>
     first_zero_sum n1 ns o' = Some (o' + k)"
proof (induction ns arbitrary: k o')
  case Nil
  then show ?case by simp
next
  case (Cons n ns)
  show ?case
  proof (cases k)
    case 0
    with Cons.prems show ?thesis by simp
  next
    case (Suc k')
    with Cons.prems have "\<not> zero_sum n n1" by auto
    moreover have "first_zero_sum n1 ns (Suc o') = Some (Suc o' + k')"
      using Cons.prems Suc by (intro Cons.IH) auto
    ultimately show ?thesis using Suc by simp
  qed
qed

lemma first_zero_sum_None:
  "(first_zero_sum n1 ns o' = None) = (\<forall>n \<in> set ns. \<not> zero_sum n n1)"
  by (induction ns arbitrary: o') auto

lemma first_zero_sum_bound:
  "first_zero_sum n1 ns o' = Some r \<Longrightarrow> o' \<le> r \<and> r < o' + length ns"
  by (induction ns arbitrary: o') (fastforce split: if_splits)+

lemma valid_permutation_length: "valid_permutation perm k \<Longrightarrow> length perm = k"
  by (metis valid_permutation_def length_sort length_upt diff_zero)

lemma valid_permutation_set: "valid_permutation perm k \<Longrightarrow> set perm = {0..<k}"
  by (metis valid_permutation_def set_sort set_upt)

lemma fancy_index_valid:
  "valid_permutation perm k \<Longrightarrow> length a = k \<Longrightarrow> fancy_index a perm = Inr (map (\<lambda>p. a ! p) perm)"
  by (auto simp: fancy_index_def list_all_iff dest: valid_permutation_set)

lemma matched_atom_ready:
  assumes "endpoint_ready T located perms n bb perm"
  shows "matched_atom T perms (index n) n (located ! index n) =
           Inr (map_option (\<lambda>o'. connection_point_indices bb ! (perm ! o'))
                  (first_zero_sum n (neighbor_list T ! index n) 0))"
proof (cases "first_zero_sum n (neighbor_list T ! index n) 0")
  case None
  with assms show ?thesis by (simp add: matched_atom_def endpoint_ready_def)
next
  case (Some r)
  from first_zero_sum_bound [OF Some] have "r < length (neighbor_list T ! index n)" by simp
  moreover from assms have "length perm = length (neighbor_list T ! index n)"
    by (simp add: endpoint_ready_def valid_permutation_length)
  ultimately have "r < length perm" by simp
  moreover from assms have "fancy_index (connection_point_indices bb) perm
      = Inr (map (\<lambda>p. connection_point_indices bb ! p) perm)"
    unfolding endpoint_ready_def by (intro fancy_index_valid) auto
  ultimately show ?thesis
    using assms Some by (simp add: matched_atom_def endpoint_ready_def)
qed

lemma matched_atom_no_match:
  "\<forall>n' \<in> set (neighbor_list T ! i). \<not> zero_sum n' n \<Longrightarrow>
     matched_atom T perms i n bb = Inl IndexError \<or> matched_atom T perms i n bb = Inr None"
  by (simp add: matched_atom_def first_zero_sum_None [THEN iffD2])

lemma find_matched_no_match:
  assumes "edge_neighbors T e = Inr (n1, n2)"
    and "(\<forall>n \<in> set (neighbor_list T ! index n1). \<not> zero_sum n n1)
         \<or> (\<forall>n \<in> set (neighbor_list T ! index n2). \<not> zero_sum n n2)"
  shows "\<exists>err. find_matched_atom_indices T located perms e = Inl err"
  using assms(2)
proof
  assume "\<forall>n \<in> set (neighbor_list T ! index n1). \<not> zero_sum n n1"
  from matched_atom_no_match [OF this, of perms "located ! index n1"] show ?thesis
    by (auto simp: find_matched_atom_indices_def assms(1) split: sum.splits option.splits)
next
  assume "\<forall>n \<in> set (neighbor_list T ! index n2). \<not> zero_sum n n2"
  from matched_atom_no_match [OF this, of perms "located ! index n2"] show ?thesis
    by (auto simp: find_matched_atom_indices_def assms(1) split: sum.splits option.splits)
qed

lemma find_matched_unbound:
  assumes "edge_neighbors T e = Inr (n1, n2)"
    and "(\<forall>n \<in> set (neighbor_list T ! index n1). \<not> zero_sum n n1)
         \<or> (\<forall>n \<in> set (neighbor_list T ! index n2). \<not> zero_sum n n2)"
    and "endpoint_ready T located perms n1 bb1 perm1"
    and "endpoint_ready T located perms n2 bb2 perm2"
  shows "find_matched_atom_indices T located perms e = Inl UnboundLocalError"
proof -
  from assms(3,4) have "index n1 < length located" "index n2 < length located"
    by (simp_all add: endpoint_ready_def)
  moreover from assms(2)
  have "first_zero_sum n1 (neighbor_list T ! index n1) 0 = None
        \<or> first_zero_sum n2 (neighbor_list T ! index n2) 0 = None"
    by (simp add: first_zero_sum_None)
  ultimately show ?thesis
    by (auto simp: find_matched_atom_indices_def assms(1) matched_atom_ready [OF assms(3)]
        matched_atom_ready [OF assms(4)] split: option.splits)
qed

lemma inter_bonds_Inl:
  "j \<in> set js \<Longrightarrow> edge_bonds T located perms offs j = Inl err \<Longrightarrow>
     \<exists>err'. inter_bonds T located perms offs js acc = Inl err'"
  by (induction js arbitrary: acc) (auto split: sum.splits)

lemma edge_bonds_Inl:
  "find_matched_atom_indices T located perms j = Inl err \<Longrightarrow>
     edge_bonds T located perms offs j = Inl err"
  by (simp add: edge_bonds_def)

lemma assemble_Inl:
  assumes "j \<in> set (edge_indices T)" and "find_matched_atom_indices T located perms j = Inl err"
  shows "\<exists>err'. assemble T located perms = Inl err'"
proof -
  have "\<forall>offs. \<exists>err'. inter_bonds T located perms offs (edge_indices T) [] = Inl err'"
    using inter_bonds_Inl [OF assms(1) edge_bonds_Inl [OF assms(2)]] by blast
  then have "\<forall>offs x. inter_bonds T located perms offs (edge_indices T) [] \<noteq> Inr x"
    by (metis sum.distinct(1))
  then show ?thesis
    by (simp add: assemble_def split: sum.splits)
qed

text \<open>
  C1: when both endpoints of the edge \<open>e\<close> have a located block and a valid
  permutation, and \<open>o1\<close>, \<open>o2\<close> are the first positions in the neighbor lists of the
  endpoints whose distance vector added to the edge's own record for that endpoint has
  norm below 0.001, then \<open>find_matched_atom_indices\<close> returns, for each endpoint, the
  entry at that position of the block's connection-point indices reordered by the
  permutation.
\<close>

theorem find_matched_atom_indices_correct:
  assumes "e < length (neighbor_list T)" and "neighbor_list T ! e = [n1, n2]"
    and "endpoint_ready T located perms n1 bb1 perm1"
    and "endpoint_ready T located perms n2 bb2 perm2"
    and "o1 < length (neighbor_list T ! index n1)"
    and "zero_sum (neighbor_list T ! index n1 ! o1) n1"
    and "\<forall>k<o1. \<not> zero_sum (neighbor_list T ! index n1 ! k) n1"
    and "o2 < length (neighbor_list T ! index n2)"
    and "zero_sum (neighbor_list T ! index n2 ! o2) n2"
    and "\<forall>k<o2. \<not> zero_sum (neighbor_list T ! index n2 ! k) n2"
  shows "find_matched_atom_indices T located perms e =
           Inr (connection_point_indices bb1 ! (perm1 ! o1),
                connection_point_indices bb2 ! (perm2 ! o2))"
proof -
  have en: "edge_neighbors T e = Inr (n1, n2)"
    using assms(1,2) by (simp add: edge_neighbors_def)
  have f1: "first_zero_sum n1 (neighbor_list T ! index n1) 0 = Some o1"
    using first_zero_sum_first [OF assms(5,6,7), of 0] by simp
  have f2: "first_zero_sum n2 (neighbor_list T ! index n2) 0 = Some o2"
    using first_zero_sum_first [OF assms(8,9,10), of 0] by simp
  from assms(3,4) have "index n1 < length located" "index n2 < length located"
    by (simp_all add: endpoint_ready_def)
  then show ?thesis
    by (simp add: find_matched_atom_indices_def en matched_atom_ready [OF assms(3)]
        matched_atom_ready [OF assms(4)] f1 f2)
qed

theorem find_matched_atom_indices_correct_witness:
  "find_matched_atom_indices chain_topology [Some node_block, None] [Some [0, 1], None] 1
     = Inr (1, 2)"
proof -
  have "find_matched_atom_indices chain_topology [Some node_block, None] [Some [0, 1], None] 1
     = Inr (connection_point_indices node_block ! ([0, 1] ! 0),
            connection_point_indices node_block ! ([0, 1] ! 1))"
    by (rule find_matched_atom_indices_correct [OF _ _ chain_ready])
      (simp_all add: chain_topology_def zero_sum_code)
  then show ?thesis by (simp add: node_block_def)
qed

text \<open>
  C6: when, for one of the two endpoint records of the edge \<open>e\<close>, no record of the
  endpoint's neighbor list passes the zero-sum test, \<open>find_matched_atom_indices\<close> fails,
  whatever the blocks and permutations; when both endpoints have a located block and a
  valid permutation the failure is the unbound variable of the final \<^verbatim>\<open>return a1, a2\<close>
  (the spec's MissingNeighborRecord); and every build whose scaled topology has such an
  edge fails, returning no structure.
\<close>

theorem missing_neighbor_record:
  assumes "edge_neighbors T e = Inr (n1, n2)"
    and "(\<forall>n \<in> set (neighbor_list T ! index n1). \<not> zero_sum n n1)
         \<or> (\<forall>n \<in> set (neighbor_list T ! index n2). \<not> zero_sum n n2)"
  shows "(\<forall>located perms. \<exists>err. find_matched_atom_indices T located perms e = Inl err)
    \<and> (\<forall>located perms bb1 perm1 bb2 perm2.
          endpoint_ready T located perms n1 bb1 perm1
          \<and> endpoint_ready T located perms n2 bb2 perm2
          \<longrightarrow> find_matched_atom_indices T located perms e = Inl UnboundLocalError)
    \<and> (\<forall>X topology node_bbs edge_bbs verbose.
          scale X topology node_bbs (default_edge_bbs edge_bbs) = Inr T
          \<and> e \<in> set (edge_indices T)
          \<longrightarrow> (\<exists>err. build X topology node_bbs edge_bbs verbose = Inl err))"
proof (intro conjI allI impI)
  fix located perms
  show "\<exists>err. find_matched_atom_indices T located perms e = Inl err"
    by (rule find_matched_no_match [OF assms])
next
  fix located perms bb1 perm1 bb2 perm2
  assume "endpoint_ready T located perms n1 bb1 perm1
          \<and> endpoint_ready T located perms n2 bb2 perm2"
  then show "find_matched_atom_indices T located perms e = Inl UnboundLocalError"
    using find_matched_unbound [OF assms] by blast
next
  fix X :: externals and topology node_bbs edge_bbs and verbose :: bool
  assume a: "scale X topology node_bbs (default_edge_bbs edge_bbs) = Inr T
          \<and> e \<in> set (edge_indices T)"
  show "\<exists>err. build X topology node_bbs edge_bbs verbose = Inl err"
  proof (cases "place X topology node_bbs edge_bbs")
    case (Inl err)
    then show ?thesis by (simp add: build_def)
  next
    case (Inr r)
    then obtain T' located perms where r: "r = (T', located, perms)"
      by (cases r) auto
    with Inr place_scale a have "T' = T" by fastforce
    moreover obtain err where "find_matched_atom_indices T located perms e = Inl err"
      using find_matched_no_match [OF assms] by blast
    ultimately show ?thesis
      using assemble_Inl [of e T located perms err] a Inr r by (simp add: build_def)
  qed
qed

theorem missing_neighbor_record_witness:
  "find_matched_atom_indices gapped_topology [Some node_block, None] [Some [0, 1], None] 1
     = Inl UnboundLocalError
   \<and> (\<exists>err. build gapped_externals chain_topology [node_block] None False = Inl err)"
proof -
  have en: "edge_neighbors gapped_topology 1
      = Inr (\<lparr>index = 0, distance_vector = (- 1, 0, 0)\<rparr>, \<lparr>index = 0, distance_vector = (1, 0, 0)\<rparr>)"
    by (simp add: edge_neighbors_def gapped_topology_def chain_topology_def)
  have nm: "(\<forall>n \<in> set (neighbor_list gapped_topology
                 ! index \<lparr>index = 0, distance_vector = (- 1, 0, 0)\<rparr>).
               \<not> zero_sum n \<lparr>index = 0, distance_vector = (- 1, 0, 0)\<rparr>)
         \<or> (\<forall>n \<in> set (neighbor_list gapped_topology
                 ! index \<lparr>index = 0, distance_vector = (1, 0, 0)\<rparr>).
               \<not> zero_sum n \<lparr>index = 0, distance_vector = (1, 0, 0)\<rparr>)"
    by (simp add: gapped_topology_def chain_topology_def zero_sum_code)
  have sc: "scale gapped_externals chain_topology [node_block]
              (default_edge_bbs None) = Inr gapped_topology
            \<and> 1 \<in> set (edge_indices gapped_topology)"
    by (simp add: gapped_externals_def simple_externals_def gapped_topology_def
        chain_topology_def)
  from missing_neighbor_record [OF en nm] gapped_ready sc show ?thesis
    by blast
qed

section \<open>The bonds of the assembled structure\<close>

lemma inter_bonds_Inr:
  "inter_bonds T located perms offs js acc = Inr result \<Longrightarrow>
     \<exists>emitted. list_all2 (\<lambda>j bs. edge_bonds T located perms offs j = Inr bs) js emitted
       \<and> result = acc @ concat emitted"
proof (induction js arbitrary: acc)
  case Nil
  then show ?case by simp
next
  case (Cons j js)
  from Cons.prems obtain new where new: "edge_bonds T located perms offs j = Inr new"
    and rest: "inter_bonds T located perms offs js (acc @ new) = Inr result"
    by (auto split: sum.splits)
  from Cons.IH [OF rest] obtain emitted where
    "list_all2 (\<lambda>j bs. edge_bonds T located perms offs j = Inr bs) js emitted"
    "result = (acc @ new) @ concat emitted"
    by blast
  then have "list_all2 (\<lambda>j bs. edge_bonds T located perms offs j = Inr bs) (j # js) (new # emitted)
      \<and> result = acc @ concat (new # emitted)"
    using new by simp
  then show ?case by blast
qed

lemma fancy_index_Inr:
  "fancy_index a perm = Inr cps \<Longrightarrow> cps = map (\<lambda>p. a ! p) perm"
  by (auto simp: fancy_index_def split: if_splits)

lemma edge_bonds_Inr:
  assumes "edge_bonds T located perms offs j = Inr bs"
  shows "\<exists>a1 a2 n1 n2.
      find_matched_atom_indices T located perms j = Inr (a1, a2)
      \<and> edge_neighbors T j = Inr (n1, n2)
      \<and> (case located ! j of
            None \<Rightarrow> bs = [(a1 + offs ! index n1, a2 + offs ! index n2)]
          | Some bb \<Rightarrow>
              (\<exists>perm. perms ! j = Some perm \<and> length perm = 2
                 \<and> bs = [(connection_point_indices bb ! (perm ! 0) + offs ! j,
                          a1 + offs ! index n1),
                         (connection_point_indices bb ! (perm ! 1) + offs ! j,
                          a2 + offs ! index n2)]))"
proof -
  from assms obtain a1 a2 n1 n2 where
    fm: "find_matched_atom_indices T located perms j = Inr (a1, a2)"
    and en: "edge_neighbors T j = Inr (n1, n2)"
    by (auto simp: edge_bonds_def split: sum.splits)
  show ?thesis
  proof (cases "located ! j")
    case None
    with assms fm en have "bs = [(a1 + offs ! index n1, a2 + offs ! index n2)]"
      by (auto simp: edge_bonds_def split: if_splits)
    with fm en None show ?thesis by simp
  next
    case (Some bb)
    with assms fm en obtain perm cps e1 e2 where
      perm: "perms ! j = Some perm"
      and cps: "fancy_index (connection_point_indices bb) perm = Inr cps"
      and two: "map (\<lambda>c. c + offs ! j) cps = [e1, e2]"
      and bs: "bs = [(e1, a1 + offs ! index n1), (e2, a2 + offs ! index n2)]"
      by (auto simp: edge_bonds_def split: if_splits option.splits sum.splits list.splits)
    from fancy_index_Inr [OF cps] two
    have "map (\<lambda>p. connection_point_indices bb ! p + offs ! j) perm = [e1, e2]"
      by (simp add: comp_def)
    then have "length perm = 2"
      and "e1 = connection_point_indices bb ! (perm ! 0) + offs ! j"
      and "e2 = connection_point_indices bb ! (perm ! 1) + offs ! j"
      by (auto simp: map_eq_Cons_conv)
    with fm en Some perm bs show ?thesis by simp
  qed
qed

lemma edge_bonds_length:
  "edge_bonds T located perms offs j = Inr bs \<Longrightarrow>
     length bs = (if located ! j = None then 1 else 2)"
  by (drule edge_bonds_Inr) (auto split: option.splits)

lemma emitted_length:
  "list_all2 (\<lambda>j bs. edge_bonds T located perms offs j = Inr bs) js emitted \<Longrightarrow>
     length (concat emitted) =
       2 * length (filter (\<lambda>j. located ! j \<noteq> None) js)
       + length (filter (\<lambda>j. located ! j = None) js)"
  by (induction js emitted rule: list_all2_induct) (auto dest: edge_bonds_length)

lemma bb_bonds_list_length:
  "length offs = length located \<Longrightarrow>
     length (concat (bb_bonds_list (zip offs located))) =
       sum_list (map (\<lambda>bb. length (bonds bb)) (List.map_filter id located))"
proof (induction offs located rule: list_induct2)
  case Nil
  then show ?case by (simp add: List.map_filter_simps)
next
  case (Cons offset offs bb located)
  then show ?case
    by (cases bb) (simp_all add: List.map_filter_simps shift_bonds_def)
qed

lemma bb_bonds_Inr:
  "bb_bonds offs located = Inr bbb \<Longrightarrow> bbb = concat (bb_bonds_list (zip offs located))"
  by (auto simp: bb_bonds_def split: list.splits)

lemma make_index_offsets_length:
  "make_index_offsets located = Inr offs \<Longrightarrow> length offs = length located"
  by (auto simp: make_index_offsets_def split: if_splits)

text \<open>
  C2: the bond list of every structure that a build returns is the intrinsic bonds of
  the located blocks followed by the bonds emitted for the edges, one group per edge in
  the order of \<open>edge_indices\<close>. The number of bonds is the sum of the intrinsic bond
  counts of the located blocks, plus two for every edge with a located block, plus one
  for every edge without. For an edge with a block the group is the two bonds from the
  connection atoms of the edge block, taken in the order of the edge block's own
  permutation and shifted by the edge block's offset, to the matched atoms of the two
  endpoints; for an edge without a block it is the single bond between the two matched
  atoms. The matched atoms are shifted by the offsets of their blocks.
\<close>

theorem build_bond_count:
  assumes "build X topology node_bbs edge_bbs verbose = Inr mof"
  shows "\<exists>T located perms offs intrinsic emitted.
      place X topology node_bbs edge_bbs = Inr (T, located, perms)
    \<and> make_index_offsets located = Inr offs
    \<and> all_bonds mof = intrinsic @ concat emitted
    \<and> length intrinsic = sum_list (map (\<lambda>bb. length (bonds bb)) (List.map_filter id located))
    \<and> length emitted = length (edge_indices T)
    \<and> length (all_bonds mof) =
         sum_list (map (\<lambda>bb. length (bonds bb)) (List.map_filter id located))
         + 2 * length (filter (\<lambda>j. located ! j \<noteq> None) (edge_indices T))
         + length (filter (\<lambda>j. located ! j = None) (edge_indices T))
    \<and> (\<forall>k. k < length (edge_indices T) \<longrightarrow>
          (\<exists>a1 a2 n1 n2.
             find_matched_atom_indices T located perms (edge_indices T ! k) = Inr (a1, a2)
             \<and> edge_neighbors T (edge_indices T ! k) = Inr (n1, n2)
             \<and> (case located ! (edge_indices T ! k) of
                   None \<Rightarrow> emitted ! k = [(a1 + offs ! index n1, a2 + offs ! index n2)]
                 | Some bb \<Rightarrow>
                     (\<exists>perm. perms ! (edge_indices T ! k) = Some perm \<and> length perm = 2
                        \<and> emitted ! k =
                            [(connection_point_indices bb ! (perm ! 0)
                                + offs ! (edge_indices T ! k), a1 + offs ! index n1),
                             (connection_point_indices bb ! (perm ! 1)
                                + offs ! (edge_indices T ! k), a2 + offs ! index n2)]))))"
proof -
  from assms obtain T located perms where
    pl: "place X topology node_bbs edge_bbs = Inr (T, located, perms)"
    and asm: "assemble T located perms = Inr mof"
    by (auto simp: build_def split: sum.splits)
  from asm obtain offs intrinsic inter where
    offs: "make_index_offsets located = Inr offs"
    and bbb: "bb_bonds offs located = Inr intrinsic"
    and inter: "inter_bonds T located perms offs (edge_indices T) [] = Inr inter"
    and all: "all_bonds mof = intrinsic @ inter"
    by (auto simp: assemble_def split: sum.splits if_splits list.splits)
  from inter_bonds_Inr [OF inter] obtain emitted where
    em: "list_all2 (\<lambda>j bs. edge_bonds T located perms offs j = Inr bs) (edge_indices T) emitted"
    and inter_eq: "inter = concat emitted"
    by auto
  have len_em: "length emitted = length (edge_indices T)"
    using em by (simp add: list_all2_lengthD)
  have len_in: "length intrinsic
      = sum_list (map (\<lambda>bb. length (bonds bb)) (List.map_filter id located))"
    using bb_bonds_Inr [OF bbb] bb_bonds_list_length [OF make_index_offsets_length [OF offs]]
    by simp
  have total: "length (all_bonds mof) =
         sum_list (map (\<lambda>bb. length (bonds bb)) (List.map_filter id located))
         + 2 * length (filter (\<lambda>j. located ! j \<noteq> None) (edge_indices T))
         + length (filter (\<lambda>j. located ! j = None) (edge_indices T))"
    using emitted_length [OF em] by (simp add: all inter_eq len_in)
  have each: "\<exists>a1 a2 n1 n2.
             find_matched_atom_indices T located perms (edge_indices T ! k) = Inr (a1, a2)
             \<and> edge_neighbors T (edge_indices T ! k) = Inr (n1, n2)
             \<and> (case located ! (edge_indices T ! k) of
                   None \<Rightarrow> emitted ! k = [(a1 + offs ! index n1, a2 + offs ! index n2)]
                 | Some bb \<Rightarrow>
                     (\<exists>perm. perms ! (edge_indices T ! k) = Some perm \<and> length perm = 2
                        \<and> emitted ! k =
                            [(connection_point_indices bb ! (perm ! 0)
                                + offs ! (edge_indices T ! k), a1 + offs ! index n1),
                             (connection_point_indices bb ! (perm ! 1)
                                + offs ! (edge_indices T ! k), a2 + offs ! index n2)]))"
    if "k < length (edge_indices T)" for k
    using list_all2_nthD [OF em that] by (rule edge_bonds_Inr)
  from pl offs all inter_eq len_in len_em total each show ?thesis
    by blast
qed

theorem build_bond_count_witness:
  "build simple_externals chain_topology [node_block] (Some [((0, 0), Some edge_block)]) False
     = Inr chain_mof
   \<and> place simple_externals chain_topology [node_block] (Some [((0, 0), Some edge_block)])
       = Inr (chain_topology, [Some node_block, Some placed_edge_block],
              [Some [0, 1], Some [0, 1]])
   \<and> length (all_bonds chain_mof) = (2 + 1) + 2 * 1 + 0"
proof -
  from build_bond_count [OF chain_build] obtain T located perms where
    "place simple_externals chain_topology [node_block] (Some [((0, 0), Some edge_block)])
       = Inr (T, located, perms)"
    and len: "length (all_bonds chain_mof) =
         sum_list (map (\<lambda>bb. length (bonds bb)) (List.map_filter id located))
         + 2 * length (filter (\<lambda>j. located ! j \<noteq> None) (edge_indices T))
         + length (filter (\<lambda>j. located ! j = None) (edge_indices T))"
    by blast
  with chain_place have "T = chain_topology"
    and "located = [Some node_block, Some placed_edge_block]"
    by simp_all
  with len have "length (all_bonds chain_mof) = (2 + 1) + 2 * 1 + 0"
    by (simp add: List.map_filter_simps chain_topology_def node_block_def
        placed_edge_block_def)
  with chain_build chain_place show ?thesis by simp
qed

section \<open>Invariants of the placement\<close>

lemma center_set_center [simp]: "center (set_center bb c) = c"
  by (simp add: set_center_def)

lemma locate_nodes_of_type_inv:
  "locate_nodes_of_type X T t node_bb is located = Inr located' \<Longrightarrow>
     length located' = length located
     \<and> (\<forall>i. i \<notin> set is \<longrightarrow> located' ! i = located ! i)
     \<and> (centered T located \<longrightarrow> centered T located')"
proof (induction "is" arbitrary: located)
  case Nil
  then show ?case by simp
next
  case (Cons i "is")
  show ?case
  proof (cases "t \<noteq> get_node_type T i")
    case True
    with Cons.prems have "locate_nodes_of_type X T t node_bb is located = Inr located'"
      by simp
    from Cons.IH [OF this] show ?thesis by simp
  next
    case False
    with Cons.prems obtain located_node rms where
      "locate X (local_structure T i) node_bb = Inr (located_node, rms)"
      and i: "i < length (positions T)" "i < length located"
      and rest: "locate_nodes_of_type X T t node_bb is
                   (located[i := Some (set_center located_node (positions T ! i))]) = Inr located'"
      by (auto split: sum.splits if_splits)
    let ?l = "located[i := Some (set_center located_node (positions T ! i))]"
    have "centered T located \<longrightarrow> centered T ?l"
      using i by (auto simp: centered_def nth_list_update split: if_splits)
    with Cons.IH [OF rest] show ?thesis
      by auto
  qed
qed

lemma locate_nodes_inv:
  "locate_nodes X T t node_bbs located = Inr located' \<Longrightarrow>
     length located' = length located
     \<and> (\<forall>i. i \<notin> set (node_indices T) \<longrightarrow> located' ! i = located ! i)
     \<and> (centered T located \<longrightarrow> centered T located')"
proof (induction node_bbs arbitrary: t located)
  case Nil
  then show ?case by simp
next
  case (Cons node_bb node_bbs)
  from Cons.prems obtain l1 where
    a: "locate_nodes_of_type X T t node_bb (node_indices T) located = Inr l1"
    and b: "locate_nodes X T (Suc t) node_bbs l1 = Inr located'"
    by (auto split: sum.splits)
  from locate_nodes_of_type_inv [OF a] Cons.IH [OF b] show ?case
    by auto
qed

lemma locate_edge_Inr:
  assumes "locate_edge X T c invc edge_bb perms e located = Inr located'"
  shows "\<exists>n1 n2 a1 a2 r1 r2 located_edge rms.
      edge_neighbors T e = Inr (n1, n2)
    \<and> find_matched_atom_indices T located perms e = Inr (a1, a2)
    \<and> atom_position (located ! index n1) a1 = Inr r1
    \<and> atom_position (located ! index n2) a2 = Inr r2
    \<and> locate X \<lparr>ls_positions = [r1, vadd r1 (minimum_image (vsub r2 r1) invc c)],
                  ls_indices = [index n1, index n2]\<rparr> edge_bb = Inr (located_edge, rms)
    \<and> e < length located
    \<and> located' = located[e := Some (set_center located_edge
                     (vadd r1 (vscale 0.5 (minimum_image (vsub r2 r1) invc c))))]"
proof -
  from assms obtain n1 n2 where en: "edge_neighbors T e = Inr (n1, n2)"
    by (cases "edge_neighbors T e") (auto simp: locate_edge_def)
  from assms en obtain a1 a2 where
    fm: "find_matched_atom_indices T located perms e = Inr (a1, a2)"
    and i: "index n1 < length located" "index n2 < length located"
    by (cases "find_matched_atom_indices T located perms e")
      (auto simp: locate_edge_def split: if_splits)
  from assms en fm i obtain r1 where r1: "atom_position (located ! index n1) a1 = Inr r1"
    by (cases "atom_position (located ! index n1) a1") (auto simp: locate_edge_def)
  from assms en fm i r1 obtain r2 where r2: "atom_position (located ! index n2) a2 = Inr r2"
    by (cases "atom_position (located ! index n2) a2") (auto simp: locate_edge_def)
  let ?target = "\<lparr>ls_positions = [r1, vadd r1 (minimum_image (vsub r2 r1) invc c)],
                  ls_indices = [index n1, index n2]\<rparr>"
  from assms en fm i r1 r2 obtain located_edge rms where
    lo: "locate X ?target edge_bb = Inr (located_edge, rms)"
    by (cases "locate X ?target edge_bb") (auto simp: locate_edge_def Let_def)
  from assms en fm i r1 r2 lo have "e < length located"
    and "located' = located[e := Some (set_center located_edge
                     (vadd r1 (vscale 0.5 (minimum_image (vsub r2 r1) invc c))))]"
    by (auto simp: locate_edge_def Let_def split: if_splits)
  with en fm r1 r2 lo show ?thesis by blast
qed

lemma locate_edge_update:
  "locate_edge X T c invc edge_bb perms e located = Inr located' \<Longrightarrow>
     e < length located \<and> (\<exists>b. located' = located[e := Some b])"
  by (drule locate_edge_Inr) blast

lemma locate_edges_of_type_inv:
  "locate_edges_of_type X T c invc t edge_bb perms es located = Inr located' \<Longrightarrow>
     length located' = length located
     \<and> (\<forall>i. i \<notin> set es \<or> get_edge_type T i \<noteq> t \<longrightarrow> located' ! i = located ! i)"
proof (induction es arbitrary: located)
  case Nil
  then show ?case by simp
next
  case (Cons e es)
  show ?case
  proof (cases "t \<noteq> get_edge_type T e")
    case True
    with Cons.prems have "locate_edges_of_type X T c invc t edge_bb perms es located = Inr located'"
      by simp
    from Cons.IH [OF this] True show ?thesis by auto
  next
    case False
    with Cons.prems obtain l1 where
      a: "locate_edge X T c invc edge_bb perms e located = Inr l1"
      and b: "locate_edges_of_type X T c invc t edge_bb perms es l1 = Inr located'"
      by (auto split: sum.splits)
    from locate_edge_update [OF a] obtain b' where l1: "l1 = located[e := Some b']" by blast
    have "l1 ! i = located ! i" if "i \<notin> set (e # es) \<or> get_edge_type T i \<noteq> t" for i
      using that False by (cases "i = e") (auto simp: l1)
    with Cons.IH [OF b] show ?thesis
      by (auto simp: l1)
  qed
qed

lemma locate_edges_inv:
  "locate_edges X T c invc perms items located = Inr located' \<Longrightarrow>
     length located' = length located
     \<and> (\<forall>i. i \<notin> set (edge_indices T) \<or> (\<forall>bb. (get_edge_type T i, Some bb) \<notin> set items)
            \<longrightarrow> located' ! i = located ! i)"
proof (induction items arbitrary: located)
  case Nil
  then show ?case by simp
next
  case (Cons item items)
  obtain t v where item: "item = (t, v)" by (cases item)
  show ?case
  proof (cases v)
    case None
    with Cons.prems item have "locate_edges X T c invc perms items located = Inr located'"
      by simp
    from Cons.IH [OF this] show ?thesis by auto
  next
    case (Some edge_bb)
    with Cons.prems item obtain l1 where
      a: "locate_edges_of_type X T c invc t edge_bb perms (edge_indices T) located = Inr l1"
      and b: "locate_edges X T c invc perms items l1 = Inr located'"
      by (auto split: sum.splits)
    from locate_edges_of_type_inv [OF a] Cons.IH [OF b] item Some show ?thesis
      by auto
  qed
qed

lemma edge_permutations_inv:
  "edge_permutations X T located is perms = Inr perms' \<Longrightarrow>
     length perms' = length perms
     \<and> (\<forall>i \<in> set is. i < length located)
     \<and> (\<forall>i. i \<notin> set is \<longrightarrow> perms' ! i = perms ! i)"
proof (induction "is" arbitrary: perms)
  case Nil
  then show ?case by simp
next
  case (Cons i "is")
  from Cons.prems have i: "i < length located"
    by (auto split: if_splits)
  show ?case
  proof (cases "located ! i")
    case None
    with Cons.prems i have "edge_permutations X T located is perms = Inr perms'"
      by simp
    from Cons.IH [OF this] i show ?thesis by auto
  next
    case (Some bb)
    with Cons.prems i obtain perm where
      "edge_permutations X T located is (perms[i := Some perm]) = Inr perms'"
      by (auto split: sum.splits if_splits)
    from Cons.IH [OF this] i show ?thesis by auto
  qed
qed

lemma place_Inr:
  assumes "place X topology node_bbs edge_bbs = Inr (T, located, perms)"
  shows "\<exists>located0 perms0 invc.
      scale X topology node_bbs (default_edge_bbs edge_bbs) = Inr T
    \<and> locate_nodes X T 0 node_bbs (replicate (n_all_points T) None) = Inr located0
    \<and> node_permutations X T located0 (node_indices T) (replicate (n_all_points T) None)
        = Inr perms0
    \<and> inv3 (cell T) = Some invc
    \<and> locate_edges X T (cell T) invc perms0
         (default_edge_bbs edge_bbs) located0 = Inr located
    \<and> edge_permutations X T located (edge_indices T) perms0 = Inr perms"
  using assms
  by (auto simp: place_def Let_def split: if_splits sum.splits option.splits)

lemma place_no_template:
  assumes "place X topology node_bbs edge_bbs = Inr (T, located, perms)"
    and "e \<in> set (edge_indices T)" and "e \<notin> set (node_indices T)"
    and "\<forall>bb. (get_edge_type T e, Some bb)
           \<notin> set (default_edge_bbs edge_bbs)"
  shows "e < length located \<and> located ! e = None"
proof -
  from place_Inr [OF assms(1)] obtain located0 perms0 invc where
    n: "locate_nodes X T 0 node_bbs (replicate (n_all_points T) None) = Inr located0"
    and e: "locate_edges X T (cell T) invc perms0
         (default_edge_bbs edge_bbs) located0 = Inr located"
    and p: "edge_permutations X T located (edge_indices T) perms0 = Inr perms"
    by blast
  from edge_permutations_inv [OF p] assms(2) have len: "e < length located" by blast
  from locate_edges_inv [OF e] assms(4) have "located ! e = located0 ! e"
    and "length located = length located0" by auto
  moreover from locate_nodes_inv [OF n] assms(3)
  have "located0 ! e = replicate (n_all_points T) None ! e"
    and "length located0 = n_all_points T" by auto
  ultimately show ?thesis using len by simp
qed

lemma place_centered:
  assumes "place X topology node_bbs edge_bbs = Inr (T, located, perms)"
    and "i < length located" and "i \<notin> set (edge_indices T)" and "located ! i = Some b"
  shows "center b = positions T ! i"
proof -
  from place_Inr [OF assms(1)] obtain located0 perms0 invc where
    n: "locate_nodes X T 0 node_bbs (replicate (n_all_points T) None) = Inr located0"
    and e: "locate_edges X T (cell T) invc perms0
         (default_edge_bbs edge_bbs) located0 = Inr located"
    by blast
  have "centered T (replicate (n_all_points T) None)"
    by (auto simp: centered_def)
  with locate_nodes_inv [OF n] have "centered T located0" by blast
  moreover from locate_edges_inv [OF e] assms(3)
  have "located ! i = located0 ! i" "length located = length located0" by auto
  ultimately show ?thesis
    using assms(2,4) by (simp add: centered_def)
qed

section \<open>Edges without a template\<close>

lemma edge_neighbors_edge_indices [simp]:
  "edge_neighbors (T\<lparr>edge_indices := es'\<rparr>) e = edge_neighbors T e"
  by (simp add: edge_neighbors_def)

lemma matched_atom_edge_indices [simp]:
  "matched_atom (T\<lparr>edge_indices := es'\<rparr>) perms i n bb = matched_atom T perms i n bb"
  by (simp add: matched_atom_def)

lemma find_matched_edge_indices [simp]:
  "find_matched_atom_indices (T\<lparr>edge_indices := es'\<rparr>) located perms e
     = find_matched_atom_indices T located perms e"
  by (simp add: find_matched_atom_indices_def cong: sum.case_cong if_cong)




lemma edge_bonds_direct:
  assumes "edge_bonds T located perms offs e = Inr bs" and "located ! e = None"
  shows "\<exists>a1 a2 n1 n2.
      find_matched_atom_indices T located perms e = Inr (a1, a2)
      \<and> edge_neighbors T e = Inr (n1, n2)
      \<and> bs = [(a1 + offs ! index n1, a2 + offs ! index n2)]"
  using edge_bonds_Inr [OF assms(1)] assms(2) by simp


lemma assemble_bonds:
  assumes "assemble T located perms = Inr mof"
  shows "\<exists>offs intrinsic emitted.
      make_index_offsets located = Inr offs
    \<and> all_bonds mof = intrinsic @ concat emitted
    \<and> length intrinsic = sum_list (map (\<lambda>bb. length (bonds bb)) (List.map_filter id located))
    \<and> list_all2 (\<lambda>j bs. edge_bonds T located perms offs j = Inr bs) (edge_indices T) emitted"
proof -
  from assms obtain offs intrinsic inter where
    offs: "make_index_offsets located = Inr offs"
    and bbb: "bb_bonds offs located = Inr intrinsic"
    and inter: "inter_bonds T located perms offs (edge_indices T) [] = Inr inter"
    and all: "all_bonds mof = intrinsic @ inter"
    by (auto simp: assemble_def split: sum.splits if_splits list.splits)
  from inter_bonds_Inr [OF inter] obtain emitted where
    em: "list_all2 (\<lambda>j bs. edge_bonds T located perms offs j = Inr bs) (edge_indices T) emitted"
    and inter_eq: "inter = concat emitted"
    by auto
  have "length intrinsic
      = sum_list (map (\<lambda>bb. length (bonds bb)) (List.map_filter id located))"
    using bb_bonds_Inr [OF bbb] bb_bonds_list_length [OF make_index_offsets_length [OF offs]]
    by simp
  with offs all inter_eq em show ?thesis by blast
qed



section \<open>The key of an edge template\<close>

lemma typed_chain_assemble:
  "assemble typed_chain_topology [Some node_block, None] [Some [0, 1], None]
     = Inr chain_mof_direct"
  by code_simp

lemma typed_chain_build:
  "build simple_externals typed_chain_topology [node_block] (Some [((1, 0), Some edge_block)])
     False = Inr chain_mof_direct"
  by (simp only: build_def typed_chain_place sum.case prod.case typed_chain_assemble)

text \<open>
  C9: after a successful placement, an edge (a point of \<open>edge_indices\<close> that is not
  also a node) has a block only when \<open>edge_bbs\<close> has a template under a key equal to the
  ordered pair \<open>get_edge_type e\<close>. When the type of the edge is \<open>(ti, tj)\<close> and the
  mapping has a template under the reversed pair \<open>(tj, ti)\<close> but none under \<open>(ti, tj)\<close>,
  the edge has no block; the bond loop emits for it the single bond between the two
  matched endpoint atoms; and in every structure that the build returns, the bond list is
  the intrinsic bonds followed by one group of bonds per edge, the group of this edge
  being that single bond, shifted by the offsets of the endpoint blocks. The pass for
  the key \<open>(tj, ti)\<close> with \<open>ti \<noteq> tj\<close> skips the edge.
\<close>

theorem edge_type_exact_key:
  assumes "place X topology node_bbs edge_bbs = Inr (T, located, perms)"
    and "e \<in> set (edge_indices T)" and "e \<notin> set (node_indices T)"
  shows "(located ! e \<noteq> None \<longrightarrow>
           (\<exists>bb. (get_edge_type T e, Some bb) \<in> set (default_edge_bbs edge_bbs)))
    \<and> (\<forall>ti tj. get_edge_type T e = (ti, tj)
            \<and> (\<exists>bb. ((tj, ti), Some bb) \<in> set (default_edge_bbs edge_bbs))
            \<and> (\<forall>bb. ((ti, tj), Some bb) \<notin> set (default_edge_bbs edge_bbs))
          \<longrightarrow> located ! e = None
              \<and> (\<forall>offs bs. edge_bonds T located perms offs e = Inr bs \<longrightarrow>
                    (\<exists>a1 a2 n1 n2.
                       find_matched_atom_indices T located perms e = Inr (a1, a2)
                       \<and> edge_neighbors T e = Inr (n1, n2)
                       \<and> bs = [(a1 + offs ! index n1, a2 + offs ! index n2)]))
              \<and> (\<forall>verbose mof. build X topology node_bbs edge_bbs verbose = Inr mof \<longrightarrow>
                    (\<exists>offs intrinsic emitted a1 a2 n1 n2.
                       make_index_offsets located = Inr offs
                       \<and> all_bonds mof = intrinsic @ concat emitted
                       \<and> length intrinsic
                           = sum_list (map (\<lambda>bb. length (bonds bb))
                               (List.map_filter id located))
                       \<and> length emitted = length (edge_indices T)
                       \<and> find_matched_atom_indices T located perms e = Inr (a1, a2)
                       \<and> edge_neighbors T e = Inr (n1, n2)
                       \<and> (\<forall>k. k < length (edge_indices T) \<and> edge_indices T ! k = e \<longrightarrow>
                             emitted ! k
                               = [(a1 + offs ! index n1, a2 + offs ! index n2)]))))
    \<and> (\<forall>ti tj c invc edge_bb perms0 located0.
          get_edge_type T e = (ti, tj) \<and> ti \<noteq> tj
          \<longrightarrow> locate_edges_of_type X T c invc (tj, ti) edge_bb perms0 [e] located0
                = Inr located0)"
proof (intro conjI allI impI)
  assume "located ! e \<noteq> None"
  with place_no_template [OF assms(1,2,3)]
  show "\<exists>bb. (get_edge_type T e, Some bb) \<in> set (default_edge_bbs edge_bbs)"
    by blast
next
  fix ti tj
  assume a: "get_edge_type T e = (ti, tj)
            \<and> (\<exists>bb. ((tj, ti), Some bb) \<in> set (default_edge_bbs edge_bbs))
            \<and> (\<forall>bb. ((ti, tj), Some bb) \<notin> set (default_edge_bbs edge_bbs))"
  with place_no_template [OF assms(1,2,3)] show none: "located ! e = None"
    by simp
  show "\<exists>a1 a2 n1 n2.
          find_matched_atom_indices T located perms e = Inr (a1, a2)
          \<and> edge_neighbors T e = Inr (n1, n2)
          \<and> bs = [(a1 + offs ! index n1, a2 + offs ! index n2)]"
    if "edge_bonds T located perms offs e = Inr bs" for offs bs
    using edge_bonds_direct [OF that none] .
  show "\<exists>offs intrinsic emitted a1 a2 n1 n2.
          make_index_offsets located = Inr offs
          \<and> all_bonds mof = intrinsic @ concat emitted
          \<and> length intrinsic
              = sum_list (map (\<lambda>bb. length (bonds bb)) (List.map_filter id located))
          \<and> length emitted = length (edge_indices T)
          \<and> find_matched_atom_indices T located perms e = Inr (a1, a2)
          \<and> edge_neighbors T e = Inr (n1, n2)
          \<and> (\<forall>k. k < length (edge_indices T) \<and> edge_indices T ! k = e \<longrightarrow>
                emitted ! k = [(a1 + offs ! index n1, a2 + offs ! index n2)])"
    if b: "build X topology node_bbs edge_bbs verbose = Inr mof" for verbose mof
  proof -
    from b assms(1) have "assemble T located perms = Inr mof"
      by (simp add: build_def)
    from assemble_bonds [OF this] obtain offs intrinsic emitted where
      offs: "make_index_offsets located = Inr offs"
      and all: "all_bonds mof = intrinsic @ concat emitted"
      and len: "length intrinsic
        = sum_list (map (\<lambda>bb. length (bonds bb)) (List.map_filter id located))"
      and em: "list_all2 (\<lambda>j bs. edge_bonds T located perms offs j = Inr bs)
                 (edge_indices T) emitted"
      by blast
    from assms(2) obtain k0 where k0: "k0 < length (edge_indices T)" "edge_indices T ! k0 = e"
      by (auto simp: in_set_conv_nth)
    from list_all2_nthD [OF em k0(1)] k0(2)
    have "edge_bonds T located perms offs e = Inr (emitted ! k0)" by simp
    from edge_bonds_direct [OF this none] obtain a1 a2 n1 n2 where
      fm: "find_matched_atom_indices T located perms e = Inr (a1, a2)"
      and en: "edge_neighbors T e = Inr (n1, n2)"
      by blast
    have "emitted ! k = [(a1 + offs ! index n1, a2 + offs ! index n2)]"
      if "k < length (edge_indices T) \<and> edge_indices T ! k = e" for k
    proof -
      from list_all2_nthD [OF em] that
      have "edge_bonds T located perms offs e = Inr (emitted ! k)" by auto
      from edge_bonds_direct [OF this none] fm en show ?thesis by simp
    qed
    with offs all len fm en list_all2_lengthD [OF em] show ?thesis
      by (intro exI [of _ offs] exI [of _ intrinsic] exI [of _ emitted] exI [of _ a1]
          exI [of _ a2] exI [of _ n1] exI [of _ n2]) simp
  qed
next
  fix ti tj c invc edge_bb perms0 located0
  assume "get_edge_type T e = (ti, tj) \<and> ti \<noteq> tj"
  then show "locate_edges_of_type X T c invc (tj, ti) edge_bb perms0 [e] located0 = Inr located0"
    by auto
qed

theorem edge_type_exact_key_witness:
  "place simple_externals typed_chain_topology [node_block] (Some [((1, 0), Some edge_block)])
     = Inr (typed_chain_topology, [Some node_block, None], [Some [0, 1], None])
   \<and> 1 \<in> set (edge_indices typed_chain_topology)
   \<and> 1 \<notin> set (node_indices typed_chain_topology)
   \<and> get_edge_type typed_chain_topology 1 = (0, 1)
   \<and> [Some node_block, None] ! 1 = None
   \<and> locate_edges_of_type simple_externals typed_chain_topology (cell typed_chain_topology)
        half_cell (1, 0) edge_block [Some [0, 1], None] [1] [Some node_block, None]
      = Inr [Some node_block, None]
   \<and> build simple_externals typed_chain_topology [node_block]
        (Some [((1, 0), Some edge_block)]) False = Inr chain_mof_direct
   \<and> (\<exists>intrinsic. all_bonds chain_mof_direct = intrinsic @ concat [[(1, 2)]]
         \<and> length intrinsic = 2)"
proof -
  have e: "1 \<in> set (edge_indices typed_chain_topology)"
    "1 \<notin> set (node_indices typed_chain_topology)"
    and t: "get_edge_type typed_chain_topology 1 = (0, 1) \<and> (0::nat) \<noteq> 1"
    and k: "get_edge_type typed_chain_topology 1 = (0, 1)
            \<and> (\<exists>bb. ((1, 0), Some bb)
                   \<in> set (default_edge_bbs (Some [((1, 0), Some edge_block)])))
            \<and> (\<forall>bb. ((0, 1), Some bb)
                   \<notin> set (default_edge_bbs (Some [((1, 0), Some edge_block)])))"
    by (simp_all add: typed_chain_topology_def chain_topology_def default_edge_bbs_def)
  note inst = edge_type_exact_key [OF typed_chain_place e]
  note rev = inst [THEN conjunct2, THEN conjunct1, THEN spec, THEN spec, THEN mp, OF k]
  note blt = rev [THEN conjunct2, THEN conjunct2, THEN spec, THEN spec, THEN mp,
      OF typed_chain_build]
  from blt obtain offs intrinsic emitted a1 a2 n1 n2 where
    offs: "make_index_offsets [Some node_block, None] = Inr offs"
    and all: "all_bonds chain_mof_direct = intrinsic @ concat emitted"
    and len: "length intrinsic
      = sum_list (map (\<lambda>bb. length (bonds bb)) (List.map_filter id [Some node_block, None]))"
    and lem: "length emitted = length (edge_indices typed_chain_topology)"
    and fm: "find_matched_atom_indices typed_chain_topology [Some node_block, None]
               [Some [0, 1], None] 1 = Inr (a1, a2)"
    and en: "edge_neighbors typed_chain_topology 1 = Inr (n1, n2)"
    and em: "\<forall>k. k < length (edge_indices typed_chain_topology)
                 \<and> edge_indices typed_chain_topology ! k = 1
               \<longrightarrow> emitted ! k = [(a1 + offs ! index n1, a2 + offs ! index n2)]"
    by blast
  have "make_index_offsets [Some node_block, None] = Inr [0, 3]"
    by code_simp
  with offs have o: "offs = [0, 3]" by simp
  have "find_matched_atom_indices typed_chain_topology [Some node_block, None]
               [Some [0, 1], None] 1 = Inr (1, 2)"
    by code_simp
  with fm have a: "a1 = 1" "a2 = 2" by simp_all
  from en have n: "index n1 = 0" "index n2 = 0"
    by (auto simp: edge_neighbors_def typed_chain_topology_def chain_topology_def)
  have ei: "edge_indices typed_chain_topology = [1]"
    by (simp add: typed_chain_topology_def chain_topology_def)
  from em ei have "emitted ! 0 = [(a1 + offs ! index n1, a2 + offs ! index n2)]"
    by simp
  with o a n have "emitted ! 0 = [(1, 2)]" by simp
  moreover from lem ei have "length emitted = 1" by simp
  ultimately have "emitted = [[(1, 2)]]"
    by (cases emitted) auto
  with all len have "\<exists>intrinsic. all_bonds chain_mof_direct = intrinsic @ concat [[(1, 2)]]
         \<and> length intrinsic = 2"
    by (auto simp: List.map_filter_simps node_block_def)
  with inst t typed_chain_place typed_chain_build e show ?thesis
    by simp
qed

section \<open>The centres of the located blocks\<close>

lemma matched_atom_cong:
  "length p' = length p \<Longrightarrow> p' ! i = p ! i \<Longrightarrow>
     matched_atom T p' i n bb = matched_atom T p i n bb"
  by (simp add: matched_atom_def cong: option.case_cong if_cong)

lemma find_matched_cong:
  assumes "edge_neighbors T e = Inr (n1, n2)"
    and "length l' = length l" "l' ! index n1 = l ! index n1" "l' ! index n2 = l ! index n2"
    and "length p' = length p" "p' ! index n1 = p ! index n1" "p' ! index n2 = p ! index n2"
  shows "find_matched_atom_indices T l' p' e = find_matched_atom_indices T l p e"
  using assms(1,2,3,4) matched_atom_cong [OF assms(5,6)] matched_atom_cong [OF assms(5,7)]
  by (simp add: find_matched_atom_indices_def cong: if_cong sum.case_cong)

lemma edge_midpoint_cong:
  assumes "edge_neighbors T e = Inr (n1, n2)"
    and "length l' = length l" "l' ! index n1 = l ! index n1" "l' ! index n2 = l ! index n2"
    and "length p' = length p" "p' ! index n1 = p ! index n1" "p' ! index n2 = p ! index n2"
  shows "edge_midpoint T l' p' invc e = edge_midpoint T l p invc e"
  using assms(1,3,4) find_matched_cong [OF assms]
  by (simp add: edge_midpoint_def cong: sum.case_cong prod.case_cong)

lemma locate_edge_midpoint:
  assumes "locate_edge X T (cell T) invc edge_bb perms e located = Inr located'"
  shows "\<exists>b. e < length located \<and> located' = located[e := Some b]
           \<and> edge_midpoint T located perms invc e = Some (center b)"
proof -
  from locate_edge_Inr [OF assms] obtain n1 n2 a1 a2 r1 r2 located_edge where
    "edge_neighbors T e = Inr (n1, n2)"
    "find_matched_atom_indices T located perms e = Inr (a1, a2)"
    "atom_position (located ! index n1) a1 = Inr r1"
    "atom_position (located ! index n2) a2 = Inr r2"
    "e < length located"
    "located' = located[e := Some (set_center located_edge
                     (vadd r1 (vscale 0.5 (minimum_image (vsub r2 r1) invc (cell T)))))]"
    by blast
  then show ?thesis
    by (intro exI [of _ "set_center located_edge
            (vadd r1 (vscale 0.5 (minimum_image (vsub r2 r1) invc (cell T))))"])
      (simp add: edge_midpoint_def)
qed

lemma locate_edge_at_midpoint:
  assumes "locate_edge X T (cell T) invc edge_bb perms e' located = Inr located'"
    and "edge_neighbors T e = Inr (n1, n2)" and "index n1 \<noteq> e'" and "index n2 \<noteq> e'"
    and "at_midpoint T perms invc e located"
  shows "at_midpoint T perms invc e located'"
proof -
  from locate_edge_midpoint [OF assms(1)] obtain b where
    e': "e' < length located" and l': "located' = located[e' := Some b]"
    and mid: "edge_midpoint T located perms invc e' = Some (center b)"
    by blast
  have same: "edge_midpoint T located' perms invc e = edge_midpoint T located perms invc e"
    using assms(3,4) by (intro edge_midpoint_cong [OF assms(2)]) (simp_all add: l')
  show ?thesis
  proof (cases "e = e'")
    case True
    with same mid e' show ?thesis by (simp add: at_midpoint_def l')
  next
    case False
    with same assms(5) show ?thesis by (simp add: at_midpoint_def l' split: option.splits)
  qed
qed

lemma locate_edges_of_type_at_midpoint:
  assumes "locate_edges_of_type X T (cell T) invc t edge_bb perms es located = Inr located'"
    and "edge_neighbors T e = Inr (n1, n2)" and "index n1 \<notin> set es" and "index n2 \<notin> set es"
    and "at_midpoint T perms invc e located"
  shows "at_midpoint T perms invc e located'"
  using assms(1,3,4,5)
proof (induction es arbitrary: located)
  case Nil
  then show ?case by simp
next
  case (Cons e' es)
  show ?case
  proof (cases "t \<noteq> get_edge_type T e'")
    case True
    with Cons show ?thesis by simp
  next
    case False
    with Cons.prems(1) obtain l1 where
      a: "locate_edge X T (cell T) invc edge_bb perms e' located = Inr l1"
      and b: "locate_edges_of_type X T (cell T) invc t edge_bb perms es l1 = Inr located'"
      by (auto split: sum.splits)
    have "at_midpoint T perms invc e l1"
      using Cons.prems(2,3,4) by (intro locate_edge_at_midpoint [OF a assms(2)]) auto
    with Cons.IH [OF b] Cons.prems(2,3) show ?thesis by simp
  qed
qed

lemma locate_edges_at_midpoint:
  assumes "locate_edges X T (cell T) invc perms items located = Inr located'"
    and "edge_neighbors T e = Inr (n1, n2)"
    and "index n1 \<notin> set (edge_indices T)" and "index n2 \<notin> set (edge_indices T)"
    and "at_midpoint T perms invc e located"
  shows "at_midpoint T perms invc e located'"
  using assms(1,5)
proof (induction items arbitrary: located)
  case Nil
  then show ?case by simp
next
  case (Cons item items)
  obtain t v where item: "item = (t, v)" by (cases item)
  show ?case
  proof (cases v)
    case None
    with Cons item show ?thesis by simp
  next
    case (Some edge_bb)
    with Cons.prems(1) item obtain l1 where
      a: "locate_edges_of_type X T (cell T) invc t edge_bb perms (edge_indices T) located = Inr l1"
      and b: "locate_edges X T (cell T) invc perms items l1 = Inr located'"
      by (auto split: sum.splits)
    from locate_edges_of_type_at_midpoint [OF a assms(2,3,4) Cons.prems(2)] Cons.IH [OF b]
    show ?thesis by simp
  qed
qed

lemma place_at_midpoint:
  assumes "place X topology node_bbs edge_bbs = Inr (T, located, perms)"
    and "e \<in> set (edge_indices T)" and "e \<notin> set (node_indices T)"
    and "located ! e = Some b"
    and "edge_neighbors T e = Inr (n1, n2)"
    and "index n1 \<notin> set (edge_indices T)" and "index n2 \<notin> set (edge_indices T)"
    and "inv3 (cell T) = Some invc"
  shows "edge_midpoint T located perms invc e = Some (center b)"
proof -
  from place_Inr [OF assms(1)] assms(8) obtain located0 perms0 where
    n: "locate_nodes X T 0 node_bbs (replicate (n_all_points T) None) = Inr located0"
    and e: "locate_edges X T (cell T) invc perms0 (default_edge_bbs edge_bbs) located0
              = Inr located"
    and p: "edge_permutations X T located (edge_indices T) perms0 = Inr perms"
    by auto
  from edge_permutations_inv [OF p] assms(2,6,7) have len: "e < length located"
    and perms: "length perms = length perms0" "perms ! index n1 = perms0 ! index n1"
      "perms ! index n2 = perms0 ! index n2"
    by auto
  from locate_edges_inv [OF e] locate_nodes_inv [OF n] len assms(3)
  have "located0 ! e = None" by simp
  then have "at_midpoint T perms0 invc e located0"
    by (simp add: at_midpoint_def)
  from locate_edges_at_midpoint [OF e assms(5,6,7) this] assms(4)
  have "edge_midpoint T located perms0 invc e = Some (center b)"
    by (simp add: at_midpoint_def)
  moreover have "edge_midpoint T located perms invc e = edge_midpoint T located perms0 invc e"
    using perms by (intro edge_midpoint_cong [OF assms(5)]) simp_all
  ultimately show ?thesis by simp
qed

lemma vsum_translate:
  "foldr vadd (map (\<lambda>p. vadd p t) ps) (0, 0, 0)
     = vadd (foldr vadd ps (0, 0, 0)) (vscale (real (length ps)) t)"
proof (induction ps)
  case Nil
  show ?case by (cases t) simp
next
  case (Cons p ps)
  then show ?case
    by (cases t; cases p; cases "foldr vadd ps (0, 0, 0)") (simp add: algebra_simps)
qed

lemma centroid_translate:
  "ps \<noteq> [] \<Longrightarrow> centroid (map (\<lambda>p. vadd p t) ps) = vadd (centroid ps) t"
  by (cases t; cases "foldr vadd ps (0, 0, 0)")
    (simp add: centroid_def vsum_translate field_simps)

lemma connection_points_set_center:
  "list_all (\<lambda>i. i < length (atoms bb)) (connection_point_indices bb) \<Longrightarrow>
     connection_points (set_center bb c)
       = map (\<lambda>p. vadd p (vsub c (center bb))) (connection_points bb)"
  by (simp add: connection_points_def set_center_def list_all_iff)

lemma vadd_vsub_cancel: "vadd u (vsub c u) = c"
  by (cases u; cases c) simp

lemma centroid_at_center_set_center:
  assumes "centroid_at_center bb"
  shows "centroid_at_center (set_center bb c)"
proof -
  from assms have ne: "connection_points bb \<noteq> []"
    and inr: "list_all (\<lambda>i. i < length (atoms bb)) (connection_point_indices bb)"
    and ce: "center bb = centroid (connection_points bb)"
    by (simp_all add: centroid_at_center_def connection_points_def)
  have "centroid (connection_points (set_center bb c)) = c"
    by (simp add: connection_points_set_center [OF inr] centroid_translate [OF ne]
        ce [symmetric] vadd_vsub_cancel)
  moreover have "connection_point_indices (set_center bb c) = connection_point_indices bb"
    and "length (atoms (set_center bb c)) = length (atoms bb)"
    by (simp_all add: set_center_def)
  ultimately show ?thesis
    using assms by (simp add: centroid_at_center_def)
qed

lemma all_at_centroid_update:
  "all_at_centroid located \<Longrightarrow> centroid_at_center b \<Longrightarrow>
     all_at_centroid (located[i := Some (set_center b c)])"
proof -
  assume a: "all_at_centroid located" and b: "centroid_at_center b"
  have "centroid_at_center b'"
    if "j < length (located[i := Some (set_center b c)])"
      and "located[i := Some (set_center b c)] ! j = Some b'" for j b'
  proof (cases "j = i")
    case True
    with that have "b' = set_center b c" by simp
    with b show ?thesis by (simp add: centroid_at_center_set_center)
  next
    case False
    with that a show ?thesis by (auto simp: all_at_centroid_def)
  qed
  then show ?thesis
    unfolding all_at_centroid_def by blast
qed

lemma locate_nodes_of_type_centroid:
  assumes "\<forall>target b rms. locate X target node_bb = Inr (b, rms) \<longrightarrow> centroid_at_center b"
  shows "locate_nodes_of_type X T t node_bb is located = Inr located' \<Longrightarrow>
     all_at_centroid located \<Longrightarrow> all_at_centroid located'"
proof (induction "is" arbitrary: located)
  case Nil
  then show ?case by simp
next
  case (Cons i "is")
  show ?case
  proof (cases "t \<noteq> get_node_type T i")
    case True
    with Cons show ?thesis by simp
  next
    case False
    with Cons.prems(1) obtain located_node rms where
      lo: "locate X (local_structure T i) node_bb = Inr (located_node, rms)"
      and rest: "locate_nodes_of_type X T t node_bb is
                   (located[i := Some (set_center located_node (positions T ! i))]) = Inr located'"
      by (auto split: sum.splits if_splits)
    from assms lo have "centroid_at_center located_node" by blast
    from Cons.IH [OF rest all_at_centroid_update [OF Cons.prems(2) this]] show ?thesis .
  qed
qed

lemma locate_nodes_centroid:
  assumes "\<forall>bb target b rms. bb \<in> set node_bbs \<and> locate X target bb = Inr (b, rms)
             \<longrightarrow> centroid_at_center b"
  shows "locate_nodes X T t node_bbs located = Inr located' \<Longrightarrow>
     all_at_centroid located \<Longrightarrow> all_at_centroid located'"
  using assms
proof (induction node_bbs arbitrary: t located)
  case Nil
  then show ?case by simp
next
  case (Cons node_bb node_bbs)
  from Cons.prems(1) obtain l1 where
    a: "locate_nodes_of_type X T t node_bb (node_indices T) located = Inr l1"
    and b: "locate_nodes X T (Suc t) node_bbs l1 = Inr located'"
    by (auto split: sum.splits)
  from Cons.prems(3)
  have h: "\<forall>target b rms. locate X target node_bb = Inr (b, rms) \<longrightarrow> centroid_at_center b"
    and r: "\<forall>bb target b rms. bb \<in> set node_bbs \<and> locate X target bb = Inr (b, rms)
             \<longrightarrow> centroid_at_center b"
    by auto
  from locate_nodes_of_type_centroid [OF h a Cons.prems(2)] have "all_at_centroid l1" .
  from Cons.IH [OF b this r] show ?case .
qed

lemma locate_edge_centroid:
  assumes "\<forall>target b rms. locate X target edge_bb = Inr (b, rms) \<longrightarrow> centroid_at_center b"
    and "locate_edge X T c invc edge_bb perms e located = Inr located'"
    and "all_at_centroid located"
  shows "all_at_centroid located'"
proof -
  from locate_edge_Inr [OF assms(2)] obtain located_edge rms ctr target where
    "locate X target edge_bb = Inr (located_edge, rms)"
    "located' = located[e := Some (set_center located_edge ctr)]"
    by blast
  with assms(1,3) show ?thesis
    by (auto intro: all_at_centroid_update)
qed

lemma locate_edges_of_type_centroid:
  assumes "\<forall>target b rms. locate X target edge_bb = Inr (b, rms) \<longrightarrow> centroid_at_center b"
  shows "locate_edges_of_type X T c invc t edge_bb perms es located = Inr located' \<Longrightarrow>
     all_at_centroid located \<Longrightarrow> all_at_centroid located'"
proof (induction es arbitrary: located)
  case Nil
  then show ?case by simp
next
  case (Cons e es)
  show ?case
  proof (cases "t \<noteq> get_edge_type T e")
    case True
    with Cons show ?thesis by simp
  next
    case False
    with Cons.prems(1) obtain l1 where
      a: "locate_edge X T c invc edge_bb perms e located = Inr l1"
      and b: "locate_edges_of_type X T c invc t edge_bb perms es l1 = Inr located'"
      by (auto split: sum.splits)
    from Cons.IH [OF b locate_edge_centroid [OF assms a Cons.prems(2)]] show ?thesis .
  qed
qed

lemma locate_edges_centroid:
  assumes "\<forall>t bb target b rms. (t, Some bb) \<in> set items \<and> locate X target bb = Inr (b, rms)
             \<longrightarrow> centroid_at_center b"
  shows "locate_edges X T c invc perms items located = Inr located' \<Longrightarrow>
     all_at_centroid located \<Longrightarrow> all_at_centroid located'"
  using assms
proof (induction items arbitrary: located)
  case Nil
  then show ?case by simp
next
  case (Cons item items)
  obtain t v where item: "item = (t, v)" by (cases item)
  have r: "\<forall>t bb target b rms.
      (t, Some bb) \<in> set items \<and> locate X target bb = Inr (b, rms) \<longrightarrow> centroid_at_center b"
  proof (intro allI impI)
    fix t bb target b rms
    assume "(t, Some bb) \<in> set items \<and> locate X target bb = Inr (b, rms)"
    then have "(t, Some bb) \<in> set (item # items) \<and> locate X target bb = Inr (b, rms)"
      by simp
    with Cons.prems(3) show "centroid_at_center b" by blast
  qed
  show ?case
  proof (cases v)
    case None
    with Cons.prems(1) item have "locate_edges X T c invc perms items located = Inr located'"
      by simp
    from Cons.IH [OF this Cons.prems(2) r] show ?thesis .
  next
    case (Some edge_bb)
    with Cons.prems(1) item obtain l1 where
      a: "locate_edges_of_type X T c invc t edge_bb perms (edge_indices T) located = Inr l1"
      and b: "locate_edges X T c invc perms items l1 = Inr located'"
      by (auto split: sum.splits)
    have h: "\<forall>target b rms. locate X target edge_bb = Inr (b, rms) \<longrightarrow> centroid_at_center b"
    proof (intro allI impI)
      fix target b rms
      assume "locate X target edge_bb = Inr (b, rms)"
      moreover have "(t, Some edge_bb) \<in> set (item # items)"
        using item Some by simp
      ultimately show "centroid_at_center b"
        using Cons.prems(3) by blast
    qed
    from Cons.IH [OF b locate_edges_of_type_centroid [OF h a Cons.prems(2)] r] show ?thesis .
  qed
qed

lemma place_centroid:
  assumes "place X topology node_bbs edge_bbs = Inr (T, located, perms)"
    and "\<forall>bb target b rms.
           (bb \<in> set node_bbs \<or> (\<exists>t. (t, Some bb) \<in> set (default_edge_bbs edge_bbs)))
           \<and> locate X target bb = Inr (b, rms)
         \<longrightarrow> centroid_at_center b"
    and "i < length located" and "located ! i = Some b"
  shows "centroid_at_center b"
proof -
  from place_Inr [OF assms(1)] obtain located0 perms0 invc where
    n: "locate_nodes X T 0 node_bbs (replicate (n_all_points T) None) = Inr located0"
    and e: "locate_edges X T (cell T) invc perms0 (default_edge_bbs edge_bbs) located0
              = Inr located"
    by blast
  have "all_at_centroid (replicate (n_all_points T) None)"
    by (auto simp: all_at_centroid_def)
  moreover from assms(2) have hn: "\<forall>bb target b rms.
      bb \<in> set node_bbs \<and> locate X target bb = Inr (b, rms) \<longrightarrow> centroid_at_center b"
    by blast
  ultimately have "all_at_centroid located0"
    using locate_nodes_centroid [OF hn n] by blast
  moreover from assms(2) have "\<forall>t bb target b rms.
      (t, Some bb) \<in> set (default_edge_bbs edge_bbs) \<and> locate X target bb = Inr (b, rms)
      \<longrightarrow> centroid_at_center b"
    by blast
  ultimately have "all_at_centroid located"
    using locate_edges_centroid [OF _ e] by blast
  with assms(3,4) show ?thesis
    by (auto simp: all_at_centroid_def)
qed

lemma two_node_place:
  "place simple_externals two_node_chain [large_node, small_node]
     (Some [((0, 1), Some edge_block)])
     = Inr (two_node_chain,
            [Some large_node, Some placed_small_node, Some placed_edge_2, Some placed_edge_3],
            [Some [0, 1], Some [0, 1], Some [0, 1], Some [0, 1]])"
proof (rule place_full)
  show "map_sum id snd
          (place simple_externals two_node_chain [large_node, small_node]
             (Some [((0, 1), Some edge_block)]))
        = Inr ([Some large_node, Some placed_small_node, Some placed_edge_2,
                Some placed_edge_3],
               [Some [0, 1], Some [0, 1], Some [0, 1], Some [0, 1]])"
    by code_simp
  show "scale simple_externals two_node_chain [large_node, small_node]
          (default_edge_bbs (Some [((0, 1), Some edge_block)])) = Inr two_node_chain"
    by (simp add: simple_externals_def)
qed

lemma two_node_templates:
  "centroid_at_center large_node" "centroid_at_center small_node"
  "centroid_at_center edge_block"
  by code_simp+

text \<open>
  C7, as stated, fails for edge points: the builder centres an edge block at the
  midpoint of the two matched atoms, not at the position of the edge in the topology.
  In the chain of a large and a small node every template has its centre at the centroid
  of its connection atoms, which is also the centroid of all its atoms. The large node,
  at 0, has its matched atom at 1/2 and the small node, at 2, has its matched atom at
  7/4, so that the block of the edge between them is centred at 9/8, where the centroid
  of its atoms lies as well, while the topology has the edge at 1.
\<close>

theorem block_center_counterexample:
  "place simple_externals two_node_chain [large_node, small_node]
     (Some [((0, 1), Some edge_block)])
     = Inr (two_node_chain,
            [Some large_node, Some placed_small_node, Some placed_edge_2, Some placed_edge_3],
            [Some [0, 1], Some [0, 1], Some [0, 1], Some [0, 1]])
   \<and> center large_node = centroid (connection_points large_node)
   \<and> center large_node = centroid (map position (atoms large_node))
   \<and> center small_node = centroid (connection_points small_node)
   \<and> center small_node = centroid (map position (atoms small_node))
   \<and> center edge_block = centroid (connection_points edge_block)
   \<and> center edge_block = centroid (map position (atoms edge_block))
   \<and> edge_indices two_node_chain = [2, 3]
   \<and> [Some large_node, Some placed_small_node, Some placed_edge_2, Some placed_edge_3] ! 2
       = Some placed_edge_2
   \<and> center placed_edge_2 = (9 / 8, 0, 0)
   \<and> centroid (connection_points placed_edge_2) = (9 / 8, 0, 0)
   \<and> centroid (map position (atoms placed_edge_2)) = (9 / 8, 0, 0)
   \<and> positions two_node_chain ! 2 = (1, 0, 0)
   \<and> centroid (connection_points placed_edge_2) \<noteq> positions two_node_chain ! 2"
  by (intro conjI two_node_place; code_simp)

text \<open>
  C7, amended: after a successful placement, every located block at a point that is
  not an edge point (every node block) has its centre at the position of that point in
  the scaled topology; the block of an edge whose two endpoints are not edge points
  has its centre at \<open>r1 + 0.5 d\<close>, where \<open>r1\<close> and \<open>r2\<close> are the positions of the matched
  atoms on the blocks of the endpoints and \<open>d\<close> is the minimum image of \<open>r2 - r1\<close>; and
  when the locator returns, for the templates of the call, blocks whose centre is the
  centroid of their connection atoms, the centre of every located block is the centroid
  of its connection atoms.
\<close>

theorem block_centers:
  assumes "place X topology node_bbs edge_bbs = Inr (T, located, perms)"
  shows "(\<forall>i b. i < length located \<and> i \<notin> set (edge_indices T) \<and> located ! i = Some b
            \<longrightarrow> center b = positions T ! i)
    \<and> (\<forall>e b n1 n2 invc.
          e \<in> set (edge_indices T) \<and> e \<notin> set (node_indices T) \<and> located ! e = Some b
          \<and> edge_neighbors T e = Inr (n1, n2)
          \<and> index n1 \<notin> set (edge_indices T) \<and> index n2 \<notin> set (edge_indices T)
          \<and> inv3 (cell T) = Some invc
          \<longrightarrow> edge_midpoint T located perms invc e = Some (center b))
    \<and> ((\<forall>bb target b rms.
           (bb \<in> set node_bbs \<or> (\<exists>t. (t, Some bb) \<in> set (default_edge_bbs edge_bbs)))
           \<and> locate X target bb = Inr (b, rms)
           \<longrightarrow> centroid_at_center b)
        \<longrightarrow> (\<forall>i b. i < length located \<and> located ! i = Some b
               \<longrightarrow> center b = centroid (connection_points b)))"
proof (intro conjI)
  show "\<forall>i b. i < length located \<and> i \<notin> set (edge_indices T) \<and> located ! i = Some b
            \<longrightarrow> center b = positions T ! i"
    using place_centered [OF assms] by blast
  show "\<forall>e b n1 n2 invc.
          e \<in> set (edge_indices T) \<and> e \<notin> set (node_indices T) \<and> located ! e = Some b
          \<and> edge_neighbors T e = Inr (n1, n2)
          \<and> index n1 \<notin> set (edge_indices T) \<and> index n2 \<notin> set (edge_indices T)
          \<and> inv3 (cell T) = Some invc
          \<longrightarrow> edge_midpoint T located perms invc e = Some (center b)"
    using place_at_midpoint [OF assms] by blast
  show "(\<forall>bb target b rms.
           (bb \<in> set node_bbs \<or> (\<exists>t. (t, Some bb) \<in> set (default_edge_bbs edge_bbs)))
           \<and> locate X target bb = Inr (b, rms)
           \<longrightarrow> centroid_at_center b)
        \<longrightarrow> (\<forall>i b. i < length located \<and> located ! i = Some b
               \<longrightarrow> center b = centroid (connection_points b))"
  proof (intro impI allI)
    fix i b
    assume h: "\<forall>bb target b rms.
           (bb \<in> set node_bbs \<or> (\<exists>t. (t, Some bb) \<in> set (default_edge_bbs edge_bbs)))
           \<and> locate X target bb = Inr (b, rms)
           \<longrightarrow> centroid_at_center b"
      and "i < length located \<and> located ! i = Some b"
    then have "centroid_at_center b"
      using place_centroid [OF assms h, of i b] by blast
    then show "center b = centroid (connection_points b)"
      by (simp add: centroid_at_center_def)
  qed
qed

theorem block_centers_witness:
  "place simple_externals two_node_chain [large_node, small_node]
     (Some [((0, 1), Some edge_block)])
     = Inr (two_node_chain,
            [Some large_node, Some placed_small_node, Some placed_edge_2, Some placed_edge_3],
            [Some [0, 1], Some [0, 1], Some [0, 1], Some [0, 1]])
   \<and> center placed_small_node = positions two_node_chain ! 1
   \<and> center placed_small_node = centroid (connection_points placed_small_node)
   \<and> edge_midpoint two_node_chain
        [Some large_node, Some placed_small_node, Some placed_edge_2, Some placed_edge_3]
        [Some [0, 1], Some [0, 1], Some [0, 1], Some [0, 1]] quarter_cell 2
      = Some (center placed_edge_2)
   \<and> center placed_edge_2 = centroid (connection_points placed_edge_2)"
proof -
  let ?located = "[Some large_node, Some placed_small_node, Some placed_edge_2,
                   Some placed_edge_3]"
  note inst = block_centers [OF two_node_place]
  have n: "(1::nat) < length ?located \<and> 1 \<notin> set (edge_indices two_node_chain)
      \<and> ?located ! 1 = Some placed_small_node"
    by (simp add: two_node_chain_def)
  have e: "2 \<in> set (edge_indices two_node_chain) \<and> 2 \<notin> set (node_indices two_node_chain)
      \<and> ?located ! 2 = Some placed_edge_2
      \<and> edge_neighbors two_node_chain 2
          = Inr (\<lparr>index = 0, distance_vector = (- 1, 0, 0)\<rparr>,
                 \<lparr>index = 1, distance_vector = (1, 0, 0)\<rparr>)
      \<and> index \<lparr>index = 0, distance_vector = (- 1, 0, 0)\<rparr> \<notin> set (edge_indices two_node_chain)
      \<and> index \<lparr>index = 1, distance_vector = (1, 0, 0)\<rparr> \<notin> set (edge_indices two_node_chain)
      \<and> inv3 (cell two_node_chain) = Some quarter_cell"
    by (simp add: two_node_chain_def edge_neighbors_def quarter_cell_def)
  have h: "\<forall>bb target b rms.
           (bb \<in> set [large_node, small_node]
            \<or> (\<exists>t. (t, Some bb) \<in> set (default_edge_bbs (Some [((0, 1), Some edge_block)]))))
           \<and> locate simple_externals target bb = Inr (b, rms)
           \<longrightarrow> centroid_at_center b"
    by (auto simp: simple_externals_def default_edge_bbs_def two_node_templates)
  have c1: "(1::nat) < length ?located \<and> ?located ! 1 = Some placed_small_node"
    and c2: "(2::nat) < length ?located \<and> ?located ! 2 = Some placed_edge_2"
    by simp_all
  note nodes = inst [THEN conjunct1, THEN spec, THEN spec, THEN mp, OF n]
  note edges = inst [THEN conjunct2, THEN conjunct1, THEN spec, THEN spec, THEN spec,
      THEN spec, THEN spec, THEN mp, OF e]
  note cens = inst [THEN conjunct2, THEN conjunct2, THEN mp, OF h]
  note cen1 = cens [THEN spec, THEN spec, THEN mp, OF c1]
  note cen2 = cens [THEN spec, THEN spec, THEN mp, OF c2]
  from two_node_place nodes edges cen1 cen2 show ?thesis
    by (intro conjI)
qed

end
